theory Spec2Isabelle
  imports Main "HOL-Library.Sublist"
begin

section \<open>The rpm.extract module\<close>

text \<open>
  A shallow embedding of \<^verbatim>\<open>library/rpm.extract.py\<close>: the function \<^verbatim>\<open>run_module\<close>
  together with the operating-system calls it makes.  The file system is a tree of
  directories, regular files and symbolic links; the process state is the current
  working directory; the identity databases, the environment and the external unpack
  pipeline are parameters of the world the module runs in.  Every way in which the
  Python process can end (\<^verbatim>\<open>exit_json\<close>, \<^verbatim>\<open>fail_json\<close>, an uncaught exception) is a value
  of the type \<open>outcome\<close>.

  What the model takes for granted of the operating system:
  \<^item> strings are lists of characters, and a path is split at \<^verbatim>\<open>/\<close>, empty components
    dropped;
  \<^item> the command run by \<^verbatim>\<open>os.popen\<close> writes into its working directory only, and what
    it writes, prints and returns is a function of the command line, the working
    directory and the file system;
  \<^item> whether the kernel refuses a call depends on the call and on the location of its
    target, not on the time of the call;
  \<^item> \<^verbatim>\<open>os.getcwd\<close> does not fail;
  \<^item> each invocation of the module is a process of its own: it starts in the working
    directory it is given, and only the file system outlives it.
\<close>

subsection \<open>The file system\<close>

text \<open>
  A node carries the numeric owner and group of the entry itself.  A symbolic link
  stores its target as the text given to \<^verbatim>\<open>symlink(2)\<close>.  A directory lists its entries
  in the order in which \<^verbatim>\<open>scandir\<close> returns them; lookups take the first entry of a name.
\<close>

datatype node =
    File int int
  | Symlink int int string
  | Dir int int "(string \<times> node) list"

type_synonym location = "string list"

datatype kind = KFile | KSymlink string | KDir

fun kind_of :: "node \<Rightarrow> kind" where
  "kind_of (File u g) = KFile"
| "kind_of (Symlink u g t) = KSymlink t"
| "kind_of (Dir u g es) = KDir"

fun st_uid :: "node \<Rightarrow> int" where
  "st_uid (File u g) = u"
| "st_uid (Symlink u g t) = u"
| "st_uid (Dir u g es) = u"

fun st_gid :: "node \<Rightarrow> int" where
  "st_gid (File u g) = g"
| "st_gid (Symlink u g t) = g"
| "st_gid (Dir u g es) = g"

fun is_Dir :: "node option \<Rightarrow> bool" where
  "is_Dir (Some (Dir u g es)) = True"
| "is_Dir other = False"

primrec node_at :: "location \<Rightarrow> node \<Rightarrow> node option" where
  "node_at [] n = Some n"
| "node_at (c # cs) n =
     (case n of
        Dir u g es \<Rightarrow> (case map_of es c of None \<Rightarrow> None | Some x \<Rightarrow> node_at cs x)
      | File u g \<Rightarrow> None
      | Symlink u g t \<Rightarrow> None)"

fun amend :: "string \<Rightarrow> (node \<Rightarrow> node) \<Rightarrow> (string \<times> node) list \<Rightarrow> (string \<times> node) list" where
  "amend c f [] = []"
| "amend c f ((k, v) # es) = (if k = c then (k, f v) # es else (k, v) # amend c f es)"

primrec modify :: "location \<Rightarrow> (node \<Rightarrow> node) \<Rightarrow> node \<Rightarrow> node" where
  "modify [] f n = f n"
| "modify (c # cs) f n =
     (case n of
        Dir u g es \<Rightarrow> Dir u g (amend c (modify cs f) es)
      | File u g \<Rightarrow> n
      | Symlink u g t \<Rightarrow> n)"

fun add_entries :: "(string \<times> node) list \<Rightarrow> node \<Rightarrow> node" where
  "add_entries new (Dir u g es) = Dir u g (es @ new)"
| "add_entries new n = n"

text \<open>
  \<^verbatim>\<open>chown(path, uid, gid)\<close>: an id of \<open>-1\<close> leaves that half of the ownership as it is.
\<close>

definition new_id :: "int \<Rightarrow> int \<Rightarrow> int" where
  "new_id requested old = (if requested = -1 then old else requested)"

fun set_owner :: "int \<Rightarrow> int \<Rightarrow> node \<Rightarrow> node" where
  "set_owner uid gid (File u g) = File (new_id uid u) (new_id gid g)"
| "set_owner uid gid (Symlink u g t) = Symlink (new_id uid u) (new_id gid g) t"
| "set_owner uid gid (Dir u g es) = Dir (new_id uid u) (new_id gid g) es"

subsection \<open>The world\<close>

datatype syscall = Chdir | Mkdir | Scandir | Unlink | Rmdir | Chown int int

datatype exc =
    FileNotFoundError
  | NotADirectoryError
  | FileExistsError
  | PermissionError
  | TooManyLinks

text \<open>
  \<open>denied\<close> says which system calls the kernel refuses, by the resolved location of
  their target.  \<open>shell\<close> stands for running a command line, here
  \<^verbatim>\<open>rpm2cpio SRC | cpio --quiet --no-absolute-filenames -idumv 2>&1\<close>: from the command
  line, the working directory and the file system it gives the entries it writes
  into the working directory, the text read from the pipe and the exit status.
\<close>

record world =
  fs :: node
  cwd :: location
  euid :: int
  egid :: int
  environ_HOME :: "string option"
  getpwuid_dir :: "string option"
  getpwnam :: "string \<Rightarrow> (int \<times> string) option"
  getgrnam :: "string \<Rightarrow> int option"
  denied :: "syscall \<Rightarrow> location \<Rightarrow> bool"
  shell :: "string \<Rightarrow> location \<Rightarrow> node \<Rightarrow> (string \<times> node) list \<times> string \<times> int"

subsection \<open>Path strings: \<^verbatim>\<open>os.path\<close>\<close>

definition os_path_basename :: "string \<Rightarrow> string" where
  "os_path_basename p = rev (takeWhile (\<lambda>c. c \<noteq> CHR ''/'') (rev p))"

definition os_path_join :: "string \<Rightarrow> string \<Rightarrow> string" where
  "os_path_join a b =
     (if take 1 b = ''/'' then b
      else if a = [] \<or> take 1 (rev a) = ''/'' then a @ b
      else a @ ''/'' @ b)"

definition rstrip_slash :: "string \<Rightarrow> string" where
  "rstrip_slash s = rev (dropWhile (\<lambda>c. c = CHR ''/'') (rev s))"

definition os_path_expanduser :: "world \<Rightarrow> string \<Rightarrow> string" where
  "os_path_expanduser w path =
     (if take 1 path \<noteq> ''~'' then path
      else
        let name = takeWhile (\<lambda>c. c \<noteq> CHR ''/'') (drop 1 path);
            rest = dropWhile (\<lambda>c. c \<noteq> CHR ''/'') (drop 1 path);
            userhome =
              (if name = []
               then (case environ_HOME w of Some h \<Rightarrow> Some h | None \<Rightarrow> getpwuid_dir w)
               else map_option snd (getpwnam w name))
        in case userhome of
             None \<Rightarrow> path
           | Some h \<Rightarrow> (if rstrip_slash h @ rest = [] then ''/'' else rstrip_slash h @ rest))"

subsection \<open>Module arguments and the result dictionary\<close>

record params =
  param_src :: string
  param_dest :: "string option"
  param_chdir :: "string option"
  param_owner :: "string option"
  param_group :: "string option"
  param_force :: bool
  check_mode :: bool

record result =
  changed :: bool
  src :: string
  dest :: "string option"
  chdir :: "string option"
  owner :: "string option"
  group :: "string option"
  force :: bool

text \<open>Python's truth value of an optional string: \<^verbatim>\<open>None\<close> and \<^verbatim>\<open>""\<close> are false.\<close>

fun truthy :: "string option \<Rightarrow> bool" where
  "truthy None = False"
| "truthy (Some s) = (s \<noteq> [])"

definition expand_if_given :: "world \<Rightarrow> string option \<Rightarrow> string option" where
  "expand_if_given w x = (if truthy x then map_option (os_path_expanduser w) x else None)"

text \<open>\<^verbatim>\<open>src[:-len(".rpm")]\<close>: the slice drops the last four characters, whatever they are.\<close>

definition drop_last4 :: "string \<Rightarrow> string" where
  "drop_last4 s = take (length s - length ''.rpm'') s"

text \<open>
  Lines 125--153: the local variables and the result dictionary once the destination
  name is known.  The second component is the local \<^verbatim>\<open>dest\<close>.
\<close>

definition prepare :: "params \<Rightarrow> world \<Rightarrow> result \<times> string" where
  "prepare ps w =
     (let src0 = os_path_expanduser w (param_src ps);
          dest0 = expand_if_given w (param_dest ps);
          chdir0 = expand_if_given w (param_chdir ps);
          res = \<lparr>changed = False, src = src0, dest = dest0, chdir = chdir0,
                 owner = param_owner ps, group = param_group ps, force = param_force ps\<rparr>
      in if \<not> truthy dest0
         then (res\<lparr>dest := Some (os_path_basename (drop_last4 src0))\<rparr>,
               os_path_basename (drop_last4 src0))
         else (res, case dest0 of Some d \<Rightarrow> d | None \<Rightarrow> []))"

subsection \<open>Path resolution\<close>

definition split_slash :: "string \<Rightarrow> string list" where
  "split_slash s =
     foldr (\<lambda>c acc. if c = CHR ''/'' then [] # acc
                     else (case acc of [] \<Rightarrow> [[c]] | x # xs \<Rightarrow> (c # x) # xs)) s [[]]"

definition components :: "string \<Rightarrow> string list" where
  "components s = filter (\<lambda>x. x \<noteq> []) (split_slash s)"

definition is_absolute :: "string \<Rightarrow> bool" where
  "is_absolute s = (take 1 s = ''/'')"

datatype resolved = Found location | Absent location string | Failed exc

text \<open>
  The kernel's walk along the components of a path, from the directory at \<open>cur\<close>.
  \<open>Found\<close> gives the location the path names, \<open>Absent\<close> a missing last component in
  an existing directory.  The first argument bounds the symbolic links followed
  (Linux allows 40); \<open>follow\<close> says whether a link in the last component is followed.
  A slash at the end of a path is dropped with the empty component after it; the one
  call of the module for which it matters, \<^verbatim>\<open>shutil.rmtree\<close> on a link to a directory,
  looks at it itself.
\<close>

fun walk_path :: "nat \<Rightarrow> node \<Rightarrow> bool \<Rightarrow> location \<Rightarrow> string list \<Rightarrow> resolved" where
  "walk_path fuel root follow cur [] = Found cur"
| "walk_path fuel root follow cur (c # rest) =
     (case node_at cur root of
        None \<Rightarrow> Failed FileNotFoundError
      | Some (File u g) \<Rightarrow> Failed NotADirectoryError
      | Some (Symlink u g t) \<Rightarrow> Failed NotADirectoryError
      | Some (Dir u g es) \<Rightarrow>
          if c = ''.'' then walk_path fuel root follow cur rest
          else if c = ''..'' then walk_path fuel root follow (butlast cur) rest
          else (case map_of es c of
                  None \<Rightarrow> if rest = [] then Absent cur c else Failed FileNotFoundError
                | Some (File u' g') \<Rightarrow> walk_path fuel root follow (cur @ [c]) rest
                | Some (Dir u' g' es') \<Rightarrow> walk_path fuel root follow (cur @ [c]) rest
                | Some (Symlink u' g' t) \<Rightarrow>
                    if rest = [] \<and> \<not> follow then Found (cur @ [c])
                    else (case fuel of
                            0 \<Rightarrow> Failed TooManyLinks
                          | Suc k \<Rightarrow>
                              walk_path k root follow (if is_absolute t then [] else cur)
                                (components t @ rest))))"

definition resolve :: "world \<Rightarrow> bool \<Rightarrow> string \<Rightarrow> resolved" where
  "resolve w follow p =
     (if p = [] then Failed FileNotFoundError
      else walk_path 40 (fs w) follow (if is_absolute p then [] else cwd w) (components p))"

subsection \<open>System calls\<close>

definition os_path_isdir :: "world \<Rightarrow> string \<Rightarrow> bool" where
  "os_path_isdir w p =
     (case resolve w True p of
        Found q \<Rightarrow> is_Dir (node_at q (fs w))
      | Absent q c \<Rightarrow> False
      | Failed e \<Rightarrow> False)"

definition os_chdir :: "world \<Rightarrow> string \<Rightarrow> exc + world" where
  "os_chdir w p =
     (case resolve w True p of
        Found q \<Rightarrow>
          (case node_at q (fs w) of
             None \<Rightarrow> Inl FileNotFoundError
           | Some (File u g) \<Rightarrow> Inl NotADirectoryError
           | Some (Symlink u g t) \<Rightarrow> Inl NotADirectoryError
           | Some (Dir u g es) \<Rightarrow>
               if denied w Chdir q then Inl PermissionError else Inr (w\<lparr>cwd := q\<rparr>))
      | Absent q c \<Rightarrow> Inl FileNotFoundError
      | Failed e \<Rightarrow> Inl e)"

definition os_getcwd :: "world \<Rightarrow> string" where
  "os_getcwd w = (if cwd w = [] then ''/'' else concat (map (\<lambda>c. ''/'' @ c) (cwd w)))"

definition os_mkdir :: "world \<Rightarrow> string \<Rightarrow> exc + world" where
  "os_mkdir w p =
     (case resolve w False p of
        Found q \<Rightarrow> Inl FileExistsError
      | Absent q c \<Rightarrow>
          if denied w Mkdir (q @ [c]) then Inl PermissionError
          else Inr (w\<lparr>fs := modify q (add_entries [(c, Dir (euid w) (egid w) [])]) (fs w)\<rparr>)
      | Failed e \<Rightarrow> Inl e)"

text \<open>
  \<^verbatim>\<open>os.chown(path, uid, gid, follow_symlinks=False)\<close>: the entry the path names is
  changed, also when it is a symbolic link.
\<close>

definition os_chown :: "world \<Rightarrow> string \<Rightarrow> int \<Rightarrow> int \<Rightarrow> exc + world" where
  "os_chown w p uid gid =
     (case resolve w False p of
        Found q \<Rightarrow>
          (case node_at q (fs w) of
             None \<Rightarrow> Inl FileNotFoundError
           | Some n \<Rightarrow>
               if denied w (Chown uid gid) q then Inl PermissionError
               else Inr (w\<lparr>fs := modify q (set_owner uid gid) (fs w)\<rparr>))
      | Absent q c \<Rightarrow> Inl FileNotFoundError
      | Failed e \<Rightarrow> Inl e)"

text \<open>
  \<^verbatim>\<open>shutil.rmtree(path, ignore_errors=True)\<close>: every entry is unlinked and every
  directory removed once it is empty; what the kernel refuses stays, with the
  directories above it, and no error is reported.  A path that names a symbolic link or
  a regular file is left alone.  The directory at the top is emptied and stays where
  \<^verbatim>\<open>rmdir\<close> refuses its name: the root, a name that ends in \<^verbatim>\<open>.\<close> or \<^verbatim>\<open>..\<close>, and a link
  to a directory written with a slash after it, which the kernel follows.
\<close>

fun prune :: "(syscall \<Rightarrow> location \<Rightarrow> bool) \<Rightarrow> location \<Rightarrow> node \<Rightarrow> node option"
  and prune_entries :: "(syscall \<Rightarrow> location \<Rightarrow> bool) \<Rightarrow> location \<Rightarrow> (string \<times> node) list
        \<Rightarrow> (string \<times> node) list" where
  "prune D here (File u g) = (if D Unlink here then Some (File u g) else None)"
| "prune D here (Symlink u g t) = (if D Unlink here then Some (Symlink u g t) else None)"
| "prune D here (Dir u g es) =
     (let left = (if D Scandir here then es else prune_entries D here es)
      in if left = [] \<and> \<not> D Rmdir here then None else Some (Dir u g left))"
| "prune_entries D here [] = []"
| "prune_entries D here ((k, v) # es) =
     (case prune D (here @ [k]) v of
        None \<Rightarrow> prune_entries D here es
      | Some v' \<Rightarrow> (k, v') # prune_entries D here es)"

fun prune_named :: "(syscall \<Rightarrow> location \<Rightarrow> bool) \<Rightarrow> location \<Rightarrow> string \<Rightarrow> (string \<times> node) list
        \<Rightarrow> (string \<times> node) list" where
  "prune_named D here c [] = []"
| "prune_named D here c ((k, v) # es) =
     (if k = c
      then (case prune D (here @ [k]) v of None \<Rightarrow> es | Some v' \<Rightarrow> (k, v') # es)
      else (k, v) # prune_named D here c es)"

fun prune_child :: "(syscall \<Rightarrow> location \<Rightarrow> bool) \<Rightarrow> location \<Rightarrow> string \<Rightarrow> node \<Rightarrow> node" where
  "prune_child D here c (Dir u g es) = Dir u g (prune_named D here c es)"
| "prune_child D here c n = n"

fun prune_below :: "(syscall \<Rightarrow> location \<Rightarrow> bool) \<Rightarrow> location \<Rightarrow> node \<Rightarrow> node" where
  "prune_below D here (Dir u g es) =
     Dir u g (if D Scandir here then es else prune_entries D here es)"
| "prune_below D here n = n"

definition ends_with_slash :: "string \<Rightarrow> bool" where
  "ends_with_slash p = (take 1 (rev p) = ''/'')"

definition rmdir_refuses_name :: "string \<Rightarrow> bool" where
  "rmdir_refuses_name p =
     (components p = [] \<or> last (components p) = ''.'' \<or> last (components p) = ''..'')"

definition shutil_rmtree :: "world \<Rightarrow> string \<Rightarrow> world" where
  "shutil_rmtree w p =
     (case resolve w (ends_with_slash p) p of
        Found q \<Rightarrow>
          (if is_Dir (node_at q (fs w))
           then (if q = [] \<or> rmdir_refuses_name p \<or> resolve w False p \<noteq> Found q
                 then w\<lparr>fs := modify q (prune_below (denied w) q) (fs w)\<rparr>
                 else w\<lparr>fs := modify (butlast q) (prune_child (denied w) (butlast q) (last q))
                                 (fs w)\<rparr>)
           else w)
      | Absent q c \<Rightarrow> w
      | Failed e \<Rightarrow> w)"

text \<open>
  \<^verbatim>\<open>os.walk(top)\<close>, top-down and without following links: one triple
  \<^verbatim>\<open>(dirpath, dirnames, filenames)\<close> for each directory that can be listed.  An entry
  goes to \<^verbatim>\<open>dirnames\<close> when \<^verbatim>\<open>is_dir()\<close> holds for it, which follows symbolic
  links; the walk then descends into the entries of \<^verbatim>\<open>dirnames\<close> that are not links.
  A directory that cannot be listed gives no triple and no error.  The generator is
  consumed by a loop that changes owners only, so the triples are those of the tree
  the walk starts from.
\<close>

definition entry_is_dir :: "node \<Rightarrow> location \<Rightarrow> string \<times> node \<Rightarrow> bool" where
  "entry_is_dir root here e =
     (case snd e of
        Dir u g es \<Rightarrow> True
      | File u g \<Rightarrow> False
      | Symlink u g t \<Rightarrow>
          (case walk_path 40 root True here [fst e] of
             Found q \<Rightarrow> is_Dir (node_at q root)
           | Absent q c \<Rightarrow> False
           | Failed x \<Rightarrow> False))"

fun walk_tree :: "(syscall \<Rightarrow> location \<Rightarrow> bool) \<Rightarrow> node \<Rightarrow> string \<Rightarrow> location \<Rightarrow> node
        \<Rightarrow> (string \<times> string list \<times> string list) list"
  and walk_entries :: "(syscall \<Rightarrow> location \<Rightarrow> bool) \<Rightarrow> node \<Rightarrow> string \<Rightarrow> location
        \<Rightarrow> (string \<times> node) list \<Rightarrow> (string \<times> string list \<times> string list) list" where
  "walk_tree D root dirpath here (Dir u g es) =
     (if D Scandir here then []
      else (dirpath, map fst (filter (entry_is_dir root here) es),
                 map fst (filter (\<lambda>e. \<not> entry_is_dir root here e) es))
           # walk_entries D root dirpath here es)"
| "walk_tree D root dirpath here (File u g) = []"
| "walk_tree D root dirpath here (Symlink u g t) = []"
| "walk_entries D root dirpath here [] = []"
| "walk_entries D root dirpath here ((k, v) # es) =
     (case v of
        Dir u g es' \<Rightarrow> walk_tree D root (os_path_join dirpath k) (here @ [k]) v
      | File u g \<Rightarrow> []
      | Symlink u g t \<Rightarrow> [])
     @ walk_entries D root dirpath here es"

definition os_walk :: "world \<Rightarrow> string \<Rightarrow> (string \<times> string list \<times> string list) list" where
  "os_walk w dirpath =
     (case resolve w True dirpath of
        Found q \<Rightarrow>
          (case node_at q (fs w) of
             None \<Rightarrow> []
           | Some n \<Rightarrow> walk_tree (denied w) (fs w) dirpath q n)
      | Absent q c \<Rightarrow> []
      | Failed e \<Rightarrow> [])"

text \<open>
  \<^verbatim>\<open>os.popen(cmd)\<close>, \<^verbatim>\<open>read()\<close> and \<^verbatim>\<open>close()\<close>: the command runs to its end in the
  working directory, where it leaves its entries.
\<close>

definition os_popen :: "world \<Rightarrow> string \<Rightarrow> world \<times> string \<times> int" where
  "os_popen w c =
     (case shell w c (cwd w) (fs w) of
        (entries, output, status) \<Rightarrow>
          (w\<lparr>fs := modify (cwd w) (add_entries entries) (fs w)\<rparr>, output, status))"

subsection \<open>\<^verbatim>\<open>run_module\<close>\<close>

datatype outcome =
    Exit_json result
  | Fail_json string "result option"
  | Raised exc

text \<open>Lines 155--157.\<close>

definition change_directory :: "result \<Rightarrow> world \<Rightarrow> exc + world" where
  "change_directory res w =
     (case chdir res of
        None \<Rightarrow> Inr w
      | Some d \<Rightarrow> if d = [] then Inr w else os_chdir w d)"

text \<open>Lines 171--178: the prediction of check mode.\<close>

definition check_mode_result :: "result \<Rightarrow> string \<Rightarrow> world \<Rightarrow> result" where
  "check_mode_result res dst w =
     (if os_path_isdir w dst
      then (if force res then res\<lparr>changed := True\<rparr> else res\<lparr>changed := False\<rparr>)
      else res\<lparr>changed := True\<rparr>)"

text \<open>Lines 182--186: \<open>Inl\<close> is the early exit, \<open>Inr\<close> the world to go on with.\<close>

definition decide :: "result \<Rightarrow> string \<Rightarrow> world \<Rightarrow> (outcome \<times> world) + world" where
  "decide res dst w =
     (if os_path_isdir w dst
      then (if force res then Inr (shutil_rmtree w dst) else Inl (Exit_json res, w))
      else Inr w)"

definition cmd :: "string \<Rightarrow> string" where
  "cmd s = ''rpm2cpio '' @ s @ '' | cpio --quiet --no-absolute-filenames -idumv 2>&1''"

text \<open>Lines 188--199.  The text read from the pipe is bound and not used again.\<close>

definition unpack :: "result \<Rightarrow> string \<Rightarrow> world \<Rightarrow> (outcome \<times> world) + world" where
  "unpack res dst w =
     (case os_mkdir w dst of
        Inl e \<Rightarrow> Inl (Raised e, w)
      | Inr w1 \<Rightarrow>
          (case os_chdir w1 dst of
             Inl e \<Rightarrow> Inl (Raised e, w1)
           | Inr w2 \<Rightarrow>
               (case os_popen w2 (cmd (src res)) of
                  (w3, cmd_output, status) \<Rightarrow>
                    if status \<noteq> 0
                    then Inl (Fail_json (''failed to extract '' @ src res @ '' RPM file'')
                                (Some res), w3)
                    else Inr w3)))"

text \<open>Lines 201--216.\<close>

definition quoted :: "string \<Rightarrow> string" where
  "quoted s = [CHR 0x27] @ s @ [CHR 0x27]"

definition lookup_uid :: "result \<Rightarrow> world \<Rightarrow> outcome + int" where
  "lookup_uid res w =
     (case owner res of
        None \<Rightarrow> Inr (- 1)
      | Some name \<Rightarrow>
          if name = [] then Inr (- 1)
          else (case getpwnam w name of
                  None \<Rightarrow>
                    Inl (Fail_json (''owner '' @ quoted name @ '' not found in password database'')
                          None)
                | Some pw \<Rightarrow> Inr (fst pw)))"

definition lookup_gid :: "result \<Rightarrow> world \<Rightarrow> outcome + int" where
  "lookup_gid res w =
     (case group res of
        None \<Rightarrow> Inr (- 1)
      | Some name \<Rightarrow>
          if name = [] then Inr (- 1)
          else (case getgrnam w name of
                  None \<Rightarrow>
                    Inl (Fail_json (''group '' @ quoted name @ '' not found in group database'')
                          None)
                | Some g \<Rightarrow> Inr g))"

text \<open>Lines 218--228: the two loops, stopped by the first exception.\<close>

fun chown_files :: "world \<Rightarrow> string \<Rightarrow> string list \<Rightarrow> int \<Rightarrow> int \<Rightarrow> (exc \<times> world) + world" where
  "chown_files w dirpath [] uid gid = Inr w"
| "chown_files w dirpath (filename # filenames) uid gid =
     (case os_chown w (os_path_join dirpath filename) uid gid of
        Inl e \<Rightarrow> Inl (e, w)
      | Inr w' \<Rightarrow> chown_files w' dirpath filenames uid gid)"

fun chown_walk :: "world \<Rightarrow> (string \<times> string list \<times> string list) list \<Rightarrow> int \<Rightarrow> int
        \<Rightarrow> (exc \<times> world) + world" where
  "chown_walk w [] uid gid = Inr w"
| "chown_walk w ((dirpath, dirnames, filenames) # triples) uid gid =
     (case os_chown w dirpath uid gid of
        Inl e \<Rightarrow> Inl (e, w)
      | Inr w1 \<Rightarrow>
          (case chown_files w1 dirpath filenames uid gid of
             Inl stopped \<Rightarrow> Inl stopped
           | Inr w2 \<Rightarrow> chown_walk w2 triples uid gid))"

definition normalize :: "result \<Rightarrow> string \<Rightarrow> int \<Rightarrow> int \<Rightarrow> world \<Rightarrow> (outcome \<times> world) + world" where
  "normalize res result_dir uid gid w =
     (if truthy (owner res) \<or> truthy (group res)
      then (case chown_walk w (os_walk w result_dir) uid gid of
              Inl (e, w') \<Rightarrow>
                if e = PermissionError
                then Inl (Fail_json (''failed to change permissions for path: '' @ result_dir
                                      @ '' [operation not permitted]'') None, w')
                else Inl (Raised e, w')
            | Inr w' \<Rightarrow> Inr w')
      else Inr w)"

text \<open>Lines 201--231, after a successful unpack.\<close>

definition finish :: "result \<Rightarrow> string \<Rightarrow> world \<Rightarrow> outcome \<times> world" where
  "finish res result_dir w =
     (case lookup_uid res w of
        Inl failure \<Rightarrow> (failure, w)
      | Inr uid \<Rightarrow>
          (case lookup_gid res w of
             Inl failure \<Rightarrow> (failure, w)
           | Inr gid \<Rightarrow>
               (case normalize res result_dir uid gid w of
                  Inl stopped \<Rightarrow> stopped
                | Inr w' \<Rightarrow> (Exit_json (res\<lparr>changed := True\<rparr>), w'))))"

text \<open>
  The whole of \<^verbatim>\<open>run_module\<close>: the way the process ends and the world it leaves.
\<close>

definition run_module :: "params \<Rightarrow> world \<Rightarrow> outcome \<times> world" where
  "run_module ps w =
     (case prepare ps w of
        (res, dst) \<Rightarrow>
          (case change_directory res w of
             Inl e \<Rightarrow> (Raised e, w)
           | Inr w1 \<Rightarrow>
               let result_dir = os_path_join (os_getcwd w1) dst
               in if check_mode ps then (Exit_json (check_mode_result res dst w1), w1)
                  else (case decide res dst w1 of
                          Inl stopped \<Rightarrow> stopped
                        | Inr w2 \<Rightarrow>
                            (case unpack res dst w2 of
                               Inl stopped \<Rightarrow> stopped
                             | Inr w3 \<Rightarrow> finish res result_dir w3))))"

text \<open>The world in which a loop over \<^verbatim>\<open>os.chown\<close> calls ends, stopped or not.\<close>

fun world_after :: "(exc \<times> world) + world \<Rightarrow> world" where
  "world_after (Inl (e, w)) = w"
| "world_after (Inr w) = w"

text \<open>
  One file system extends another when every location of the first is a location of
  the second, with an entry of the same kind (and the same target, for a link).
\<close>

definition extends :: "node \<Rightarrow> node \<Rightarrow> bool" where
  "extends t t' =
     (\<forall>l x. node_at l t = Some x \<longrightarrow> (\<exists>x'. node_at l t' = Some x' \<and> kind_of x' = kind_of x))"

text \<open>The dictionary handed to \<^verbatim>\<open>exit_json\<close> or \<^verbatim>\<open>fail_json\<close> besides the message.\<close>

fun reported :: "outcome \<Rightarrow> result option" where
  "reported (Exit_json r) = Some r"
| "reported (Fail_json msg r) = r"
| "reported (Raised e) = None"

subsection \<open>The default destination in the words of the specification\<close>

text \<open>
  The base name of the source with the suffix \<^verbatim>\<open>.rpm\<close> removed, where the suffix has to
  match exactly and nothing is removed otherwise.
\<close>

definition strip_rpm_suffix :: "string \<Rightarrow> string" where
  "strip_rpm_suffix name =
     (if suffix ''.rpm'' name then take (length name - length ''.rpm'') name else name)"

definition spec_default_dest :: "string \<Rightarrow> string" where
  "spec_default_dest s = strip_rpm_suffix (os_path_basename s)"

subsection \<open>A concrete world\<close>

text \<open>
  A host with two packages under \<^verbatim>\<open>/tmp\<close>, of which \<^verbatim>\<open>old-1.0\<close> has been unpacked in the
  home directory of user 1000 before.  The package \<^verbatim>\<open>pkg-2.3\<close> holds a directory, a
  regular file, a link to that file and a link to a directory.
\<close>

definition demo_fs :: node where
  "demo_fs =
     Dir 0 0
       [(''tmp'', Dir 0 0 [(''pkg-2.3.rpm'', File 1000 1000), (''old-1.0.rpm'', File 1000 1000)]),
        (''home'', Dir 0 0
           [(''u'', Dir 1000 1000
               [(''note'', File 1000 1000),
                (''old-1.0'', Dir 1000 1000 [(''README'', File 1000 1000)])])])]"

definition demo_archive :: "(string \<times> node) list" where
  "demo_archive =
     [(''usr'', Dir 1000 1000 [(''lib'', Dir 1000 1000 [(''a.so'', File 1000 1000)])]),
      (''lib'', Symlink 1000 1000 ''usr/lib''),
      (''README'', File 1000 1000),
      (''doc'', Symlink 1000 1000 ''README'')]"

definition demo_world :: world where
  "demo_world =
     \<lparr>fs = demo_fs, cwd = [''home'', ''u''], euid = 1000, egid = 1000,
      environ_HOME = Some ''/home/u'', getpwuid_dir = Some ''/home/u'',
      getpwnam = (\<lambda>name. if name = ''root'' then Some (0, ''/root'') else None),
      getgrnam = (\<lambda>name. if name = ''wheel'' then Some 10 else None),
      denied = (\<lambda>call q. False),
      shell = (\<lambda>c d t. (demo_archive, ''usr/lib/a.so'', 0))\<rparr>"

text \<open>The same host with a pipeline that fails, as it does on a damaged package.\<close>

definition broken_world :: world where
  "broken_world =
     demo_world\<lparr>shell := (\<lambda>c d t. ([], ''cpio: premature end of archive'', 2))\<rparr>"

definition demo_params :: params where
  "demo_params =
     \<lparr>param_src = ''/tmp/pkg-2.3.rpm'', param_dest = None, param_chdir = None,
      param_owner = Some ''root'', param_group = None, param_force = False,
      check_mode = False\<rparr>"

definition old_params :: params where
  "old_params =
     \<lparr>param_src = ''/tmp/old-1.0.rpm'', param_dest = None, param_chdir = Some ''~'',
      param_owner = Some ''nobody'', param_group = None, param_force = False,
      check_mode = False\<rparr>"

section \<open>Properties\<close>

lemmas path_defs = os_path_basename_def os_path_join_def os_path_expanduser_def
  rstrip_slash_def split_slash_def components_def is_absolute_def drop_last4_def
  expand_if_given_def

subsection \<open>The stages of a run\<close>

lemma prepare_check_mode: "prepare (ps\<lparr>check_mode := b\<rparr>) w = prepare ps w"
  by (simp add: prepare_def)

lemma force_prepare: "force (fst (prepare ps w)) = param_force ps"
  by (simp add: prepare_def Let_def)

lemma changed_prepare: "changed (fst (prepare ps w)) = False"
  by (simp add: prepare_def Let_def)

lemma chdir_prepare: "chdir (fst (prepare ps w)) = expand_if_given w (param_chdir ps)"
  by (simp add: prepare_def Let_def)

lemma expanduser_nonempty: "p \<noteq> [] \<Longrightarrow> os_path_expanduser w p \<noteq> []"
  by (auto simp: os_path_expanduser_def Let_def split: option.splits)

lemma expand_if_given_Some: "expand_if_given w x = Some c \<Longrightarrow> c \<noteq> []"
  by (cases x) (auto simp: expand_if_given_def expanduser_nonempty split: if_splits)

lemma basename_append_no_slash:
  "CHR ''/'' \<notin> set x \<Longrightarrow> os_path_basename (p @ x) = os_path_basename p @ x"
proof -
  assume a: "CHR ''/'' \<notin> set x"
  have "takeWhile (\<lambda>c. c \<noteq> CHR ''/'') (rev x @ rev p) = rev x @ takeWhile (\<lambda>c. c \<noteq> CHR ''/'') (rev p)"
    by (rule takeWhile_append2) (use a in auto)
  then show ?thesis by (simp add: os_path_basename_def)
qed

lemma default_of_rpm_path:
  assumes "suffix ''.rpm'' s"
  shows "os_path_basename (drop_last4 s) = spec_default_dest s"
proof -
  from assms obtain p where s: "s = p @ ''.rpm''" by (auto simp: suffix_def)
  have b: "os_path_basename s = os_path_basename p @ ''.rpm''"
    unfolding s by (rule basename_append_no_slash) simp
  have "drop_last4 s = p" by (simp add: s drop_last4_def)
  moreover have "spec_default_dest s = os_path_basename p"
    by (simp add: spec_default_dest_def strip_rpm_suffix_def b suffix_def)
  ultimately show ?thesis by simp
qed

lemma run_module_chdir_fails:
  "change_directory (fst (prepare ps w)) w = Inl e \<Longrightarrow> run_module ps w = (Raised e, w)"
  by (cases "prepare ps w") (simp add: run_module_def Let_def)

lemma run_module_check:
  "check_mode ps \<Longrightarrow> change_directory (fst (prepare ps w)) w = Inr w1 \<Longrightarrow>
   run_module ps w =
     (Exit_json (check_mode_result (fst (prepare ps w)) (snd (prepare ps w)) w1), w1)"
  by (cases "prepare ps w") (simp add: run_module_def Let_def)

lemma run_module_real:
  "\<not> check_mode ps \<Longrightarrow> change_directory (fst (prepare ps w)) w = Inr w1 \<Longrightarrow>
   run_module ps w =
     (case decide (fst (prepare ps w)) (snd (prepare ps w)) w1 of
        Inl stopped \<Rightarrow> stopped
      | Inr w2 \<Rightarrow>
          (case unpack (fst (prepare ps w)) (snd (prepare ps w)) w2 of
             Inl stopped \<Rightarrow> stopped
           | Inr w3 \<Rightarrow>
               finish (fst (prepare ps w)) (os_path_join (os_getcwd w1) (snd (prepare ps w))) w3))"
  by (cases "prepare ps w") (simp add: run_module_def Let_def split: sum.splits)

lemma decide_stopped: "decide res dst w = Inl (out, w') \<Longrightarrow> out = Exit_json res \<and> w' = w"
  by (auto simp: decide_def split: if_splits)

lemma unpack_stopped:
  "unpack res dst w = Inl (out, w') \<Longrightarrow> reported out = None \<or> reported out = Some res"
  by (auto simp: unpack_def split: sum.splits prod.splits if_splits)

lemma normalize_stopped:
  "normalize res rd uid gid w = Inl (out, w') \<Longrightarrow> reported out = None"
  by (auto simp: normalize_def split: sum.splits prod.splits if_splits)

lemma lookup_uid_stopped: "lookup_uid res w = Inl out \<Longrightarrow> reported out = None"
  by (auto simp: lookup_uid_def split: option.splits if_splits)

lemma lookup_gid_stopped: "lookup_gid res w = Inl out \<Longrightarrow> reported out = None"
  by (auto simp: lookup_gid_def split: option.splits if_splits)

lemma finish_reported:
  "reported (fst (finish res rd w)) = Some r \<Longrightarrow> fst (finish res rd w) = Exit_json (res\<lparr>changed := True\<rparr>) \<and> r = res\<lparr>changed := True\<rparr>"
  by (auto simp: finish_def split: sum.splits prod.splits
      dest: lookup_uid_stopped lookup_gid_stopped normalize_stopped)

lemma run_module_echo:
  assumes "reported (fst (run_module ps w)) = Some r"
  shows "r\<lparr>changed := c\<rparr> = (fst (prepare ps w))\<lparr>changed := c\<rparr>"
proof (cases "change_directory (fst (prepare ps w)) w")
  case (Inl e)
  with assms show ?thesis by (simp add: run_module_chdir_fails)
next
  case (Inr w1)
  show ?thesis
  proof (cases "check_mode ps")
    case True
    with Inr assms show ?thesis
      by (auto simp: run_module_check check_mode_result_def split: if_splits)
  next
    case False
    with Inr assms show ?thesis
      by (auto simp: run_module_real split: sum.splits
          dest!: decide_stopped unpack_stopped finish_reported)
  qed
qed

subsection \<open>The default destination\<close>

text \<open>
  What lines 151--153 compute when no destination name is given (\<^verbatim>\<open>None\<close> or the empty
  string): the base name of what is left of the expanded source path without its last
  four characters, which every reported dictionary echoes.  For a source that ends in
  \<^verbatim>\<open>.rpm\<close> this is the base name without that suffix, as the specification has it, and
  for \<^verbatim>\<open>.../foo-1.0.rpm\<close> it is \<^verbatim>\<open>foo-1.0\<close>.
\<close>

lemma default_dest_computed:
  assumes "\<not> truthy (param_dest ps)"
  shows "snd (prepare ps w) = os_path_basename (drop_last4 (os_path_expanduser w (param_src ps)))
       \<and> dest (fst (prepare ps w)) = Some (snd (prepare ps w))
       \<and> (suffix ''.rpm'' (os_path_expanduser w (param_src ps)) \<longrightarrow>
            snd (prepare ps w) = spec_default_dest (os_path_expanduser w (param_src ps)))
       \<and> (\<forall>d. os_path_expanduser w (param_src ps) = d @ ''/foo-1.0.rpm'' \<longrightarrow>
            snd (prepare ps w) = ''foo-1.0'')
       \<and> (\<forall>r. reported (fst (run_module ps w)) = Some r \<longrightarrow> dest r = Some (snd (prepare ps w)))"
proof -
  let ?s = "os_path_expanduser w (param_src ps)"
  have none: "expand_if_given w (param_dest ps) = None"
    using assms by (simp add: expand_if_given_def)
  have 1: "snd (prepare ps w) = os_path_basename (drop_last4 ?s)"
    by (simp add: prepare_def Let_def none)
  have 2: "dest (fst (prepare ps w)) = Some (snd (prepare ps w))"
    by (simp add: prepare_def Let_def none)
  have 3: "suffix ''.rpm'' ?s \<longrightarrow> snd (prepare ps w) = spec_default_dest ?s"
    by (simp add: 1 default_of_rpm_path)
  have 4: "\<forall>d. ?s = d @ ''/foo-1.0.rpm'' \<longrightarrow> snd (prepare ps w) = ''foo-1.0''"
    by (simp add: 1 drop_last4_def os_path_basename_def)
  have 5: "\<forall>r. reported (fst (run_module ps w)) = Some r \<longrightarrow> dest r = Some (snd (prepare ps w))"
  proof (intro allI impI)
    fix r assume "reported (fst (run_module ps w)) = Some r"
    from run_module_echo [OF this, of False]
    have "dest (r\<lparr>changed := False\<rparr>) = dest ((fst (prepare ps w))\<lparr>changed := False\<rparr>)"
      by simp
    with 2 show "dest r = Some (snd (prepare ps w))" by simp
  qed
  from 1 2 3 4 5 show ?thesis by blast
qed

text \<open>
  Claim C3 at a source that does not end in \<^verbatim>\<open>.rpm\<close>.  The documentation of the module
  gives the default as the name of the RPM without the suffix \<^verbatim>\<open>.rpm\<close>, and the claim
  asks for an exact match of that suffix, so \<^verbatim>\<open>/tmp/backup.tar\<close> would keep its base name
  \<^verbatim>\<open>backup.tar\<close>.  Line 152 never looks at the suffix it cuts: the destination is
  \<^verbatim>\<open>backup\<close>.
\<close>

theorem default_dest_cuts_any_suffix:
  "\<not> suffix ''.rpm'' ''/tmp/backup.tar''
   \<and> spec_default_dest ''/tmp/backup.tar'' = ''backup.tar''
   \<and> snd (prepare (demo_params\<lparr>param_src := ''/tmp/backup.tar''\<rparr>) demo_world) = ''backup''
   \<and> dest (fst (prepare (demo_params\<lparr>param_src := ''/tmp/backup.tar''\<rparr>) demo_world))
       = Some ''backup''"
  by (simp add: demo_params_def path_defs prepare_def spec_default_dest_def strip_rpm_suffix_def
      suffix_def)

subsection \<open>Check mode and the real run\<close>

lemma prepare_unchanged: "(fst (prepare ps w))\<lparr>changed := False\<rparr> = fst (prepare ps w)"
  by (simp add: prepare_def Let_def)

lemma unpack_not_exit: "unpack res dst w = Inl (out, w') \<Longrightarrow> out \<noteq> Exit_json r"
  by (auto simp: unpack_def split: sum.splits prod.splits if_splits)

lemma finish_exit:
  "fst (finish res rd w) = Exit_json r \<Longrightarrow> r = res\<lparr>changed := True\<rparr>"
  using finish_reported [of res rd w r] by simp

lemma decide_continues: "decide res dst w = Inr w2 \<Longrightarrow> \<not> os_path_isdir w dst \<or> force res"
  by (auto simp: decide_def split: if_splits)

lemma decide_stops: "decide res dst w = Inl s \<Longrightarrow> os_path_isdir w dst \<and> \<not> force res"
  by (auto simp: decide_def split: if_splits)

text \<open>
  Claim C1, as the code has it.  Once the change of directory has succeeded, check mode
  reports \<^verbatim>\<open>changed\<close> as true when the destination is not a directory, and as the
  value of \<^verbatim>\<open>force\<close> when it is one.  A real run of the same request from the same
  world that ends in \<^verbatim>\<open>exit_json\<close> reports the very same dictionary.  Nothing is said
  of a real run that fails.
\<close>

theorem check_mode_predicts_successful_run:
  assumes "change_directory (fst (prepare ps w)) w = Inr w1"
  shows "fst (run_module (ps\<lparr>check_mode := True\<rparr>) w)
           = Exit_json ((fst (prepare ps w))
               \<lparr>changed := (if os_path_isdir w1 (snd (prepare ps w)) then param_force ps else True)\<rparr>)
       \<and> (\<forall>r. fst (run_module (ps\<lparr>check_mode := False\<rparr>) w) = Exit_json r \<longrightarrow>
              fst (run_module (ps\<lparr>check_mode := True\<rparr>) w) = Exit_json r)"
proof -
  let ?res = "fst (prepare ps w)" and ?dst = "snd (prepare ps w)"
  let ?b = "if os_path_isdir w1 ?dst then param_force ps else True"
  have dry: "fst (run_module (ps\<lparr>check_mode := True\<rparr>) w) = Exit_json (?res\<lparr>changed := ?b\<rparr>)"
    using assms run_module_check [of "ps\<lparr>check_mode := True\<rparr>" w w1]
    by (simp add: prepare_check_mode check_mode_result_def force_prepare)
  have real: "fst (run_module (ps\<lparr>check_mode := False\<rparr>) w) = Exit_json r \<Longrightarrow> r = ?res\<lparr>changed := ?b\<rparr>" for r
  proof -
    assume ex: "fst (run_module (ps\<lparr>check_mode := False\<rparr>) w) = Exit_json r"
    note rm = run_module_real [of "ps\<lparr>check_mode := False\<rparr>" w w1, simplified prepare_check_mode, OF _ assms]
    show ?thesis
    proof (cases "decide ?res ?dst w1")
      case (Inl s)
      from decide_stops [OF Inl] have c: "os_path_isdir w1 ?dst" "\<not> param_force ps"
        by (simp_all add: force_prepare)
      obtain out w' where s: "s = (out, w')" by (cases s)
      from decide_stopped [OF Inl [unfolded s]] have "out = Exit_json ?res" by simp
      with ex rm Inl s have "r = ?res" by simp
      with c show ?thesis by (simp add: prepare_unchanged)
    next
      case (Inr w2)
      from decide_continues [OF Inr] have c: "?b" by (auto simp: force_prepare)
      show ?thesis
      proof (cases "unpack ?res ?dst w2")
        case (Inl s)
        obtain out w' where s: "s = (out, w')" by (cases s)
        from unpack_not_exit [OF Inl [unfolded s]] ex rm Inr Inl s show ?thesis by simp
      next
        case (Inr w3)
        with ex rm \<open>decide ?res ?dst w1 = Inr w2\<close>
        have "fst (finish ?res (os_path_join (os_getcwd w1) ?dst) w3) = Exit_json r" by simp
        from finish_exit [OF this] c show ?thesis by simp
      qed
    qed
  qed
  from dry real show ?thesis by simp
qed

text \<open>The run of the concrete world, evaluated.\<close>

lemma demo_run_outcome:
  "fst (run_module demo_params demo_world) = Exit_json
     \<lparr>changed = True, src = ''/tmp/pkg-2.3.rpm'', dest = Some ''pkg-2.3'', chdir = None,
      owner = Some ''root'', group = None, force = False\<rparr>"
  by code_simp

text \<open>
  The theorem at the concrete world: the real run succeeds, and check mode has
  predicted its dictionary.
\<close>

theorem check_mode_predicts_successful_run_witness:
  "change_directory (fst (prepare demo_params demo_world)) demo_world = Inr demo_world
   \<and> fst (run_module (demo_params\<lparr>check_mode := False\<rparr>) demo_world) = Exit_json
       \<lparr>changed = True, src = ''/tmp/pkg-2.3.rpm'', dest = Some ''pkg-2.3'', chdir = None,
        owner = Some ''root'', group = None, force = False\<rparr>
   \<and> fst (run_module (demo_params\<lparr>check_mode := True\<rparr>) demo_world) = Exit_json
       \<lparr>changed = True, src = ''/tmp/pkg-2.3.rpm'', dest = Some ''pkg-2.3'', chdir = None,
        owner = Some ''root'', group = None, force = False\<rparr>"
proof -
  have h: "change_directory (fst (prepare demo_params demo_world)) demo_world = Inr demo_world"
    by (simp add: change_directory_def chdir_prepare expand_if_given_def demo_params_def)
  have p: "demo_params\<lparr>check_mode := False\<rparr> = demo_params"
    by (simp add: demo_params_def)
  have real: "fst (run_module (demo_params\<lparr>check_mode := False\<rparr>) demo_world) = Exit_json
       \<lparr>changed = True, src = ''/tmp/pkg-2.3.rpm'', dest = Some ''pkg-2.3'', chdir = None,
        owner = Some ''root'', group = None, force = False\<rparr>"
    unfolding p by (rule demo_run_outcome)
  from check_mode_predicts_successful_run [OF h]
  have "\<forall>r. fst (run_module (demo_params\<lparr>check_mode := False\<rparr>) demo_world) = Exit_json r \<longrightarrow>
              fst (run_module (demo_params\<lparr>check_mode := True\<rparr>) demo_world) = Exit_json r"
    by (rule conjunct2)
  from this [rule_format, OF real] h real show ?thesis
    by (intro conjI)
qed

text \<open>
  Claim C1 as stated fails where the real run fails: with a pipeline that exits
  non-zero, check mode reports \<^verbatim>\<open>changed\<close> true and the real run hands
  \<^verbatim>\<open>fail_json\<close> a dictionary whose \<^verbatim>\<open>changed\<close> is false.
\<close>

theorem check_mode_counterexample:
  "map_option changed (reported (fst (run_module (demo_params\<lparr>check_mode := True\<rparr>) broken_world)))
     = Some True
   \<and> map_option changed (reported (fst (run_module demo_params broken_world))) = Some False"
  by code_simp

subsection \<open>The no-op run\<close>

text \<open>
  Claim C9.  A real run without \<^verbatim>\<open>force\<close> that finds the destination to be a
  directory (the test of line 182, made after the change of directory) ends in
  \<^verbatim>\<open>exit_json\<close> with \<^verbatim>\<open>changed\<close> false, in the world the change of directory left.
  The identity databases of the world play no part, so an owner or group they do not
  know cannot make this run fail.
\<close>

theorem noop_skips_identity_resolution:
  assumes "\<not> check_mode ps" and "\<not> param_force ps"
    and "change_directory (fst (prepare ps w)) w = Inr w1"
    and "os_path_isdir w1 (snd (prepare ps w))"
  shows "run_module ps w = (Exit_json (fst (prepare ps w)), w1)
       \<and> changed (fst (prepare ps w)) = False"
  using assms
  by (simp add: run_module_real decide_def force_prepare changed_prepare)

lemma old_chdir:
  "change_directory (fst (prepare old_params demo_world)) demo_world
     = Inr (demo_world\<lparr>cwd := [''home'', ''u'']\<rparr>)"
  by (simp add: change_directory_def chdir_prepare old_params_def demo_world_def demo_fs_def
      path_defs resolve_def os_chdir_def)

lemma old_isdir:
  "os_path_isdir (demo_world\<lparr>cwd := [''home'', ''u'']\<rparr>) (snd (prepare old_params demo_world))"
  by (simp add: prepare_def old_params_def demo_world_def demo_fs_def
      path_defs resolve_def os_path_isdir_def)

theorem noop_skips_identity_resolution_witness:
  "\<not> check_mode old_params \<and> \<not> param_force old_params
   \<and> param_owner old_params = Some ''nobody'' \<and> getpwnam demo_world ''nobody'' = None
   \<and> os_path_isdir (demo_world\<lparr>cwd := [''home'', ''u'']\<rparr>) (snd (prepare old_params demo_world))
   \<and> fst (run_module old_params demo_world) = Exit_json
       \<lparr>changed = False, src = ''/tmp/old-1.0.rpm'', dest = Some ''old-1.0'',
        chdir = Some ''/home/u'', owner = Some ''nobody'', group = None, force = False\<rparr>"
proof -
  have a: "\<not> check_mode old_params" and b: "\<not> param_force old_params"
    by (simp_all add: old_params_def)
  have r: "fst (prepare old_params demo_world) =
       \<lparr>changed = False, src = ''/tmp/old-1.0.rpm'', dest = Some ''old-1.0'',
        chdir = Some ''/home/u'', owner = Some ''nobody'', group = None, force = False\<rparr>"
    by (simp add: prepare_def old_params_def demo_world_def path_defs)
  from noop_skips_identity_resolution [OF a b old_chdir old_isdir]
  have "fst (run_module old_params demo_world) = Exit_json (fst (prepare old_params demo_world))"
    by simp
  with r a b old_isdir show ?thesis
    by (simp add: old_params_def demo_world_def)
qed

subsection \<open>Check mode and the working directory\<close>

lemma os_chdir_world:
  "os_chdir w c = Inr w1 \<Longrightarrow> resolve w True c = Found (cwd w1) \<and> w1 = w\<lparr>cwd := cwd w1\<rparr>"
  by (auto simp: os_chdir_def split: resolved.splits option.splits node.splits if_splits)

text \<open>
  Claim C10.  In check mode with a working directory given, the run ends in the world
  that \<^verbatim>\<open>os.chdir\<close> left: the working directory of the process is the directory the
  path resolves to, nothing changes it back, and the rest of the world, the file system
  with it, is as it was.  The prediction is made in that world.
\<close>

theorem check_mode_changes_directory_only:
  assumes "check_mode ps"
    and "expand_if_given w (param_chdir ps) = Some c"
    and "os_chdir w c = Inr w1"
  shows "run_module ps w
           = (Exit_json (check_mode_result (fst (prepare ps w)) (snd (prepare ps w)) w1), w1)
       \<and> resolve w True c = Found (cwd w1)
       \<and> w1 = w\<lparr>cwd := cwd w1\<rparr>
       \<and> fs (snd (run_module ps w)) = fs w"
proof -
  from assms(2) have "c \<noteq> []" by (rule expand_if_given_Some)
  with assms(2,3) have cd: "change_directory (fst (prepare ps w)) w = Inr w1"
    by (simp add: change_directory_def chdir_prepare)
  from run_module_check [OF assms(1) cd]
  have run: "run_module ps w
      = (Exit_json (check_mode_result (fst (prepare ps w)) (snd (prepare ps w)) w1), w1)" .
  from os_chdir_world [OF assms(3)]
  have res: "resolve w True c = Found (cwd w1)" and w1: "w1 = w\<lparr>cwd := cwd w1\<rparr>"
    by simp_all
  from w1 have "fs w1 = fs w" by (metis world.select_convs(1) world.surjective world.update_convs(2))
  with run res w1 show ?thesis by simp
qed

lemma tmp_chdir:
  "os_chdir demo_world ''/tmp'' = Inr (demo_world\<lparr>cwd := [''tmp'']\<rparr>)"
  by (simp add: demo_world_def demo_fs_def path_defs resolve_def os_chdir_def)

theorem check_mode_changes_directory_only_witness:
  "check_mode (demo_params\<lparr>param_chdir := Some ''/tmp'', check_mode := True\<rparr>)
   \<and> os_chdir demo_world ''/tmp'' = Inr (demo_world\<lparr>cwd := [''tmp'']\<rparr>)
   \<and> cwd demo_world = [''home'', ''u'']
   \<and> cwd (snd (run_module (demo_params\<lparr>param_chdir := Some ''/tmp'', check_mode := True\<rparr>)
              demo_world)) = [''tmp'']
   \<and> fs (snd (run_module (demo_params\<lparr>param_chdir := Some ''/tmp'', check_mode := True\<rparr>)
              demo_world)) = demo_fs"
proof -
  let ?ps = "demo_params\<lparr>param_chdir := Some ''/tmp'', check_mode := True\<rparr>"
  have a: "check_mode ?ps" by simp
  have b: "expand_if_given demo_world (param_chdir ?ps) = Some ''/tmp''"
    by (simp add: expand_if_given_def os_path_expanduser_def)
  from check_mode_changes_directory_only [OF a b tmp_chdir]
  have "snd (run_module ?ps demo_world) = demo_world\<lparr>cwd := [''tmp'']\<rparr>"
    by simp
  then have "cwd (snd (run_module ?ps demo_world)) = [''tmp'']"
    and "fs (snd (run_module ?ps demo_world)) = demo_fs"
    by (simp_all add: demo_world_def)
  with a tmp_chdir show ?thesis by (simp add: demo_world_def)
qed

subsection \<open>Failure of the unpack pipeline\<close>

text \<open>
  Claim C4, as the code has it.  When a real run gets as far as the pipeline and the
  pipeline exits non-zero, the run ends in \<^verbatim>\<open>fail_json\<close> with the message
  \<^verbatim>\<open>failed to extract SRC RPM file\<close> and the result dictionary.  The message is built
  from the source path alone; the text read from the pipe is not part of it.  The final
  world is the one the pipeline left: the destination stays as it is, and no identity
  is looked up and no owner changed.
\<close>

theorem unpack_failure_is_fatal:
  assumes "\<not> check_mode ps"
    and "change_directory (fst (prepare ps w)) w = Inr w1"
    and "decide (fst (prepare ps w)) (snd (prepare ps w)) w1 = Inr w2"
    and "os_mkdir w2 (snd (prepare ps w)) = Inr w3"
    and "os_chdir w3 (snd (prepare ps w)) = Inr w4"
    and "os_popen w4 (cmd (src (fst (prepare ps w)))) = (w5, output, status)"
    and "status \<noteq> 0"
  shows "run_module ps w
           = (Fail_json (''failed to extract '' @ src (fst (prepare ps w)) @ '' RPM file'')
                (Some (fst (prepare ps w))), w5)"
  using assms by (simp add: run_module_real unpack_def)

lemma broken_mkdir:
  "os_mkdir broken_world ''pkg-2.3'' = Inr (broken_world\<lparr>fs :=
     Dir 0 0
       [(''tmp'', Dir 0 0 [(''pkg-2.3.rpm'', File 1000 1000), (''old-1.0.rpm'', File 1000 1000)]),
        (''home'', Dir 0 0
           [(''u'', Dir 1000 1000
               [(''note'', File 1000 1000),
                (''old-1.0'', Dir 1000 1000 [(''README'', File 1000 1000)]),
                (''pkg-2.3'', Dir 1000 1000 [])])])]\<rparr>)"
  by (simp add: broken_world_def demo_world_def demo_fs_def path_defs resolve_def os_mkdir_def)

theorem unpack_failure_is_fatal_witness:
  "\<not> check_mode demo_params
   \<and> run_module demo_params broken_world
       = (Fail_json ''failed to extract /tmp/pkg-2.3.rpm RPM file''
            (Some \<lparr>changed = False, src = ''/tmp/pkg-2.3.rpm'', dest = Some ''pkg-2.3'',
                   chdir = None, owner = Some ''root'', group = None, force = False\<rparr>),
          broken_world\<lparr>fs :=
            Dir 0 0
              [(''tmp'', Dir 0 0 [(''pkg-2.3.rpm'', File 1000 1000), (''old-1.0.rpm'', File 1000 1000)]),
               (''home'', Dir 0 0
                  [(''u'', Dir 1000 1000
                      [(''note'', File 1000 1000),
                       (''old-1.0'', Dir 1000 1000 [(''README'', File 1000 1000)]),
                       (''pkg-2.3'', Dir 1000 1000 [])])])],
            cwd := [''home'', ''u'', ''pkg-2.3'']\<rparr>)"
proof -
  let ?t = "Dir 0 0
       [(''tmp'', Dir 0 0 [(''pkg-2.3.rpm'', File 1000 1000), (''old-1.0.rpm'', File 1000 1000)]),
        (''home'', Dir 0 0
           [(''u'', Dir 1000 1000
               [(''note'', File 1000 1000),
                (''old-1.0'', Dir 1000 1000 [(''README'', File 1000 1000)]),
                (''pkg-2.3'', Dir 1000 1000 [])])])]"
  have p: "prepare demo_params broken_world =
      (\<lparr>changed = False, src = ''/tmp/pkg-2.3.rpm'', dest = Some ''pkg-2.3'',
        chdir = None, owner = Some ''root'', group = None, force = False\<rparr>, ''pkg-2.3'')"
    by (simp add: prepare_def demo_params_def path_defs)
  have a: "\<not> check_mode demo_params" by (simp add: demo_params_def)
  have b: "change_directory (fst (prepare demo_params broken_world)) broken_world = Inr broken_world"
    unfolding p fst_conv snd_conv by (simp add: change_directory_def)
  have c: "decide (fst (prepare demo_params broken_world)) (snd (prepare demo_params broken_world))
      broken_world = Inr broken_world"
    unfolding p fst_conv snd_conv
    by (simp add: decide_def broken_world_def demo_world_def demo_fs_def path_defs resolve_def
        os_path_isdir_def)
  have d: "os_mkdir broken_world (snd (prepare demo_params broken_world))
      = Inr (broken_world\<lparr>fs := ?t\<rparr>)"
    unfolding p fst_conv snd_conv by (rule broken_mkdir)
  have e: "os_chdir (broken_world\<lparr>fs := ?t\<rparr>) (snd (prepare demo_params broken_world))
      = Inr (broken_world\<lparr>fs := ?t, cwd := [''home'', ''u'', ''pkg-2.3'']\<rparr>)"
    unfolding p fst_conv snd_conv
    by (simp add: broken_world_def demo_world_def path_defs resolve_def os_chdir_def)
  have f: "os_popen (broken_world\<lparr>fs := ?t, cwd := [''home'', ''u'', ''pkg-2.3'']\<rparr>)
        (cmd (src (fst (prepare demo_params broken_world))))
      = (broken_world\<lparr>fs := ?t, cwd := [''home'', ''u'', ''pkg-2.3'']\<rparr>,
         ''cpio: premature end of archive'', 2)"
    unfolding p fst_conv snd_conv
    by (simp add: broken_world_def demo_world_def os_popen_def)
  have g: "(2::int) \<noteq> 0" by simp
  from unpack_failure_is_fatal [OF a b c d e f g, unfolded p fst_conv snd_conv] a show ?thesis
    by simp
qed

text \<open>
  Claim C4 as stated fails in its message: the pipeline of the concrete world writes
  \<^verbatim>\<open>cpio: premature end of archive\<close>, and the message of the failure does not hold
  that text.
\<close>

theorem unpack_failure_counterexample:
  "fst (snd (shell broken_world (cmd ''/tmp/pkg-2.3.rpm'') [''home'', ''u'', ''pkg-2.3''] demo_fs))
     = ''cpio: premature end of archive''
   \<and> fst (run_module demo_params broken_world)
       = Fail_json ''failed to extract /tmp/pkg-2.3.rpm RPM file''
           (Some \<lparr>changed = False, src = ''/tmp/pkg-2.3.rpm'', dest = Some ''pkg-2.3'',
                  chdir = None, owner = Some ''root'', group = None, force = False\<rparr>)
   \<and> \<not> sublist ''cpio: premature end of archive''
         ''failed to extract /tmp/pkg-2.3.rpm RPM file''"
proof -
  have 1: "fst (snd (shell broken_world (cmd ''/tmp/pkg-2.3.rpm'') [''home'', ''u'', ''pkg-2.3''] demo_fs))
     = ''cpio: premature end of archive''"
    by (simp add: broken_world_def)
  have 2: "fst (run_module demo_params broken_world)
       = Fail_json ''failed to extract /tmp/pkg-2.3.rpm RPM file''
           (Some \<lparr>changed = False, src = ''/tmp/pkg-2.3.rpm'', dest = Some ''pkg-2.3'',
                  chdir = None, owner = Some ''root'', group = None, force = False\<rparr>)"
    by code_simp
  have 3: "\<not> sublist ''cpio: premature end of archive''
         ''failed to extract /tmp/pkg-2.3.rpm RPM file''"
  proof
    assume "sublist ''cpio: premature end of archive''
         ''failed to extract /tmp/pkg-2.3.rpm RPM file''"
    then have "set ''cpio: premature end of archive''
        \<subseteq> set ''failed to extract /tmp/pkg-2.3.rpm RPM file''"
      by (rule set_mono_sublist)
    then show False by simp
  qed
  from 1 2 3 show ?thesis by simp
qed

subsection \<open>What a failure reports\<close>

text \<open>
  Claim C5 at a request whose owner the password database does not know: the unpack
  succeeds, and \<^verbatim>\<open>fail_json\<close> is called with the message alone.  None of the fields
  \<^verbatim>\<open>src\<close>, \<^verbatim>\<open>dest\<close>, \<^verbatim>\<open>chdir\<close>, \<^verbatim>\<open>owner\<close>, \<^verbatim>\<open>group\<close>, \<^verbatim>\<open>force\<close> is reported, where the
  failure of the pipeline in the same world reports them all.
\<close>

theorem unknown_owner_reports_message_only:
  "fst (run_module (demo_params\<lparr>param_owner := Some ''nobody''\<rparr>) demo_world)
     = Fail_json (''owner '' @ quoted ''nobody'' @ '' not found in password database'') None
   \<and> reported (fst (run_module (demo_params\<lparr>param_owner := Some ''nobody''\<rparr>) demo_world)) = None
   \<and> reported (fst (run_module demo_params broken_world))
       = Some \<lparr>changed = False, src = ''/tmp/pkg-2.3.rpm'', dest = Some ''pkg-2.3'',
               chdir = None, owner = Some ''root'', group = None, force = False\<rparr>"
  by code_simp

subsection \<open>A destination that is not a directory\<close>

text \<open>
  Claim C6, as the code has it.  A destination name that exists and is not a directory
  (a regular file, or a link that does not lead to a directory) fails the test
  \<^verbatim>\<open>os.path.isdir\<close> and so goes the way of an absent destination, whatever \<^verbatim>\<open>force\<close>
  is: check mode reports \<^verbatim>\<open>changed\<close> true, and a real run deletes nothing, does not
  return the no-op result and goes on to \<^verbatim>\<open>os.mkdir\<close>, which raises
  \<^verbatim>\<open>FileExistsError\<close> in the world the change of directory left.
\<close>

theorem non_directory_goes_the_way_of_absent:
  assumes "change_directory (fst (prepare ps w)) w = Inr w1"
    and "resolve w1 False (snd (prepare ps w)) = Found q"
    and "\<not> os_path_isdir w1 (snd (prepare ps w))"
  shows "fst (run_module (ps\<lparr>check_mode := True\<rparr>) w)
           = Exit_json ((fst (prepare ps w))\<lparr>changed := True\<rparr>)
       \<and> run_module (ps\<lparr>check_mode := False\<rparr>) w = (Raised FileExistsError, w1)"
proof -
  have dry: "fst (run_module (ps\<lparr>check_mode := True\<rparr>) w)
      = Exit_json ((fst (prepare ps w))\<lparr>changed := True\<rparr>)"
    using run_module_check [of "ps\<lparr>check_mode := True\<rparr>" w w1] assms(1,3)
    by (simp add: prepare_check_mode check_mode_result_def)
  have mk: "os_mkdir w1 (snd (prepare ps w)) = Inl FileExistsError"
    using assms(2) by (simp add: os_mkdir_def)
  have "run_module (ps\<lparr>check_mode := False\<rparr>) w = (Raised FileExistsError, w1)"
    using run_module_real [of "ps\<lparr>check_mode := False\<rparr>" w w1] assms(1,3) mk
    by (simp add: prepare_check_mode decide_def unpack_def)
  with dry show ?thesis by simp
qed

theorem non_directory_goes_the_way_of_absent_witness:
  "resolve demo_world False ''note'' = Found [''home'', ''u'', ''note'']
   \<and> node_at [''home'', ''u'', ''note''] (fs demo_world) = Some (File 1000 1000)
   \<and> \<not> os_path_isdir demo_world ''note''
   \<and> fst (run_module (demo_params\<lparr>param_dest := Some ''note'', param_force := True,
              check_mode := True\<rparr>) demo_world)
       = Exit_json \<lparr>changed = True, src = ''/tmp/pkg-2.3.rpm'', dest = Some ''note'',
                    chdir = None, owner = Some ''root'', group = None, force = True\<rparr>
   \<and> run_module (demo_params\<lparr>param_dest := Some ''note'', param_force := True,
              check_mode := False\<rparr>) demo_world
       = (Raised FileExistsError, demo_world)"
proof -
  let ?ps = "demo_params\<lparr>param_dest := Some ''note'', param_force := True\<rparr>"
  have p: "prepare ?ps demo_world =
      (\<lparr>changed = False, src = ''/tmp/pkg-2.3.rpm'', dest = Some ''note'',
        chdir = None, owner = Some ''root'', group = None, force = True\<rparr>, ''note'')"
    by (simp add: prepare_def demo_params_def path_defs)
  have a: "change_directory (fst (prepare ?ps demo_world)) demo_world = Inr demo_world"
    unfolding p fst_conv snd_conv by (simp add: change_directory_def)
  have r: "resolve demo_world False ''note'' = Found [''home'', ''u'', ''note'']"
    by (simp add: demo_world_def demo_fs_def path_defs resolve_def)
  have n: "node_at [''home'', ''u'', ''note''] (fs demo_world) = Some (File 1000 1000)"
    by (simp add: demo_world_def demo_fs_def)
  have d: "\<not> os_path_isdir demo_world ''note''"
    by (simp add: demo_world_def demo_fs_def path_defs resolve_def os_path_isdir_def)
  have b: "resolve demo_world False (snd (prepare ?ps demo_world)) = Found [''home'', ''u'', ''note'']"
    unfolding p snd_conv by (rule r)
  have c: "\<not> os_path_isdir demo_world (snd (prepare ?ps demo_world))"
    unfolding p snd_conv by (rule d)
  from non_directory_goes_the_way_of_absent [OF a b c, unfolded p fst_conv snd_conv] r n d
  show ?thesis by simp
qed

text \<open>
  Claim C6 as stated fails: with \<^verbatim>\<open>force\<close> false and a regular file at the destination
  name, the run is no no-op with \<^verbatim>\<open>changed\<close> false; it raises, and check mode
  predicts \<^verbatim>\<open>changed\<close> true.
\<close>

theorem non_directory_counterexample:
  "node_at [''home'', ''u'', ''note''] (fs demo_world) = Some (File 1000 1000)
   \<and> param_force (demo_params\<lparr>param_dest := Some ''note''\<rparr>) = False
   \<and> fst (run_module (demo_params\<lparr>param_dest := Some ''note''\<rparr>) demo_world)
       = Raised FileExistsError
   \<and> fst (run_module (demo_params\<lparr>param_dest := Some ''note'', check_mode := True\<rparr>) demo_world)
       = Exit_json \<lparr>changed = True, src = ''/tmp/pkg-2.3.rpm'', dest = Some ''note'',
                    chdir = None, owner = Some ''root'', group = None, force = False\<rparr>"
  by code_simp

subsection \<open>Ownership of one half only\<close>

lemma map_of_amend:
  "map_of (amend c f es) d = (if d = c then map_option f (map_of es c) else map_of es d)"
  by (induction c f es rule: amend.induct) auto

lemma node_at_below_set_owner: "node_at (c # cs) (set_owner u g n) = node_at (c # cs) n"
  by (cases n) simp_all

lemma gid_after_chown:
  "map_option st_gid (node_at l (modify q (set_owner u (- 1)) n)) = map_option st_gid (node_at l n)"
proof (induction q arbitrary: l n)
  case Nil
  show ?case
  proof (cases l)
    case Nil
    then show ?thesis by (cases n) (simp_all add: new_id_def)
  next
    case (Cons c cs)
    then show ?thesis by (simp only: modify.simps node_at_below_set_owner)
  qed
next
  case (Cons c q)
  show ?case
  proof (cases n)
    case (Dir x y es)
    show ?thesis
    proof (cases l)
      case Nil
      with Dir show ?thesis by simp
    next
      case (Cons d ds)
      with Dir Cons.IH show ?thesis
        by (simp add: map_of_amend split: option.splits)
    qed
  qed simp_all
qed

lemma uid_after_chown:
  "map_option st_uid (node_at l (modify q (set_owner (- 1) g) n)) = map_option st_uid (node_at l n)"
proof (induction q arbitrary: l n)
  case Nil
  show ?case
  proof (cases l)
    case Nil
    then show ?thesis by (cases n) (simp_all add: new_id_def)
  next
    case (Cons c cs)
    then show ?thesis by (simp only: modify.simps node_at_below_set_owner)
  qed
next
  case (Cons c q)
  show ?case
  proof (cases n)
    case (Dir x y es)
    show ?thesis
    proof (cases l)
      case Nil
      with Dir show ?thesis by simp
    next
      case (Cons d ds)
      with Dir Cons.IH show ?thesis
        by (simp add: map_of_amend split: option.splits)
    qed
  qed simp_all
qed

lemma os_chown_gid:
  "os_chown w p u (- 1) = Inr w' \<Longrightarrow>
   map_option st_gid (node_at l (fs w')) = map_option st_gid (node_at l (fs w))"
  by (auto simp: os_chown_def gid_after_chown split: resolved.splits option.splits if_splits)

lemma os_chown_uid:
  "os_chown w p (- 1) g = Inr w' \<Longrightarrow>
   map_option st_uid (node_at l (fs w')) = map_option st_uid (node_at l (fs w))"
  by (auto simp: os_chown_def uid_after_chown split: resolved.splits option.splits if_splits)

lemma chown_files_gid:
  "map_option st_gid (node_at l (fs (world_after (chown_files w d names u (- 1)))))
     = map_option st_gid (node_at l (fs w))"
proof (induction names arbitrary: w)
  case Nil
  show ?case by simp
next
  case (Cons a names)
  show ?case
  proof (cases "os_chown w (os_path_join d a) u (- 1)")
    case (Inl e)
    then show ?thesis by simp
  next
    case (Inr w')
    with Cons.IH [of w'] os_chown_gid [OF Inr, of l] show ?thesis by simp
  qed
qed

lemma chown_files_uid:
  "map_option st_uid (node_at l (fs (world_after (chown_files w d names (- 1) g))))
     = map_option st_uid (node_at l (fs w))"
proof (induction names arbitrary: w)
  case Nil
  show ?case by simp
next
  case (Cons a names)
  show ?case
  proof (cases "os_chown w (os_path_join d a) (- 1) g")
    case (Inl e)
    then show ?thesis by simp
  next
    case (Inr w')
    with Cons.IH [of w'] os_chown_uid [OF Inr, of l] show ?thesis by simp
  qed
qed

lemma chown_walk_gid:
  "map_option st_gid (node_at l (fs (world_after (chown_walk w triples u (- 1)))))
     = map_option st_gid (node_at l (fs w))"
proof (induction triples arbitrary: w)
  case Nil
  show ?case by simp
next
  case (Cons t triples)
  obtain d dn fn where t: "t = (d, dn, fn)" by (cases t)
  show ?case
  proof (cases "os_chown w d u (- 1)")
    case (Inl e)
    then show ?thesis by (simp add: t)
  next
    case (Inr w1)
    note w1 = this
    show ?thesis
    proof (cases "chown_files w1 d fn u (- 1)")
      case (Inl s)
      obtain e w' where s: "s = (e, w')" by (cases s)
      from chown_files_gid [of l w1 d fn u] Inl s os_chown_gid [OF w1, of l] w1 show ?thesis
        by (simp add: t)
    next
      case (Inr w2)
      from chown_files_gid [of l w1 d fn u] Inr os_chown_gid [OF w1, of l] w1 Cons.IH [of w2]
      show ?thesis by (simp add: t)
    qed
  qed
qed

lemma chown_walk_uid:
  "map_option st_uid (node_at l (fs (world_after (chown_walk w triples (- 1) g))))
     = map_option st_uid (node_at l (fs w))"
proof (induction triples arbitrary: w)
  case Nil
  show ?case by simp
next
  case (Cons t triples)
  obtain d dn fn where t: "t = (d, dn, fn)" by (cases t)
  show ?case
  proof (cases "os_chown w d (- 1) g")
    case (Inl e)
    then show ?thesis by (simp add: t)
  next
    case (Inr w1)
    note w1 = this
    show ?thesis
    proof (cases "chown_files w1 d fn (- 1) g")
      case (Inl s)
      obtain e w' where s: "s = (e, w')" by (cases s)
      from chown_files_uid [of l w1 d fn g] Inl s os_chown_uid [OF w1, of l] w1 show ?thesis
        by (simp add: t)
    next
      case (Inr w2)
      from chown_files_uid [of l w1 d fn g] Inr os_chown_uid [OF w1, of l] w1 Cons.IH [of w2]
      show ?thesis by (simp add: t)
    qed
  qed
qed

lemma normalize_world:
  "(case normalize res rd u g w of Inl (out, w') \<Rightarrow> w' | Inr w' \<Rightarrow> w')
     = (if truthy (owner res) \<or> truthy (group res)
        then world_after (chown_walk w (os_walk w rd) u g) else w)"
  by (cases "chown_walk w (os_walk w rd) u g") (auto simp: normalize_def)

lemma lookup_gid_sentinel: "\<not> truthy (group res) \<Longrightarrow> lookup_gid res w = Inr (- 1)"
  by (cases "group res") (simp_all add: lookup_gid_def)

lemma lookup_uid_sentinel: "\<not> truthy (owner res) \<Longrightarrow> lookup_uid res w = Inr (- 1)"
  by (cases "owner res") (simp_all add: lookup_uid_def)

lemma finish_world:
  "snd (finish res rd w) = w \<or>
   (\<exists>u g. lookup_uid res w = Inr u \<and> lookup_gid res w = Inr g
      \<and> snd (finish res rd w) = world_after (chown_walk w (os_walk w rd) u g))"
proof (cases "lookup_uid res w")
  case (Inl a)
  then show ?thesis by (simp add: finish_def)
next
  case (Inr u)
  note u = this
  show ?thesis
  proof (cases "lookup_gid res w")
    case (Inl a)
    with u show ?thesis by (simp add: finish_def)
  next
    case (Inr g)
    from normalize_world [of res rd u g w] u Inr show ?thesis
      by (auto simp: finish_def split: sum.splits if_splits)
  qed
qed

lemma finish_keeps_gid:
  assumes "\<not> truthy (group res)"
  shows "map_option st_gid (node_at l (fs (snd (finish res rd w)))) = map_option st_gid (node_at l (fs w))"
  using finish_world [of res rd w] lookup_gid_sentinel [OF assms, of w]
  by (auto simp: chown_walk_gid)

lemma finish_keeps_uid:
  assumes "\<not> truthy (owner res)"
  shows "map_option st_uid (node_at l (fs (snd (finish res rd w)))) = map_option st_uid (node_at l (fs w))"
  using finish_world [of res rd w] lookup_uid_sentinel [OF assms, of w]
  by (auto simp: chown_walk_uid)


text \<open>
  Claim C8.  In a real run that has unpacked successfully into the world \<open>w3\<close>: when no
  group is requested, the group id handed to \<^verbatim>\<open>os.chown\<close> is the sentinel \<open>-1\<close> and
  the group id at every location of the final file system is the one of \<open>w3\<close>; when
  no owner is requested, the same holds of the owner id.  This covers the runs that
  end in a failure of the ownership pass, too.
\<close>

theorem one_half_of_ownership_is_kept:
  assumes "\<not> check_mode ps"
    and "change_directory (fst (prepare ps w)) w = Inr w1"
    and "decide (fst (prepare ps w)) (snd (prepare ps w)) w1 = Inr w2"
    and "unpack (fst (prepare ps w)) (snd (prepare ps w)) w2 = Inr w3"
  shows "(\<not> truthy (param_group ps) \<longrightarrow>
            lookup_gid (fst (prepare ps w)) w3 = Inr (- 1)
            \<and> (\<forall>l. map_option st_gid (node_at l (fs (snd (run_module ps w))))
                     = map_option st_gid (node_at l (fs w3))))
       \<and> (\<not> truthy (param_owner ps) \<longrightarrow>
            lookup_uid (fst (prepare ps w)) w3 = Inr (- 1)
            \<and> (\<forall>l. map_option st_uid (node_at l (fs (snd (run_module ps w))))
                     = map_option st_uid (node_at l (fs w3))))"
proof -
  let ?res = "fst (prepare ps w)"
  let ?rd = "os_path_join (os_getcwd w1) (snd (prepare ps w))"
  have run: "run_module ps w = finish ?res ?rd w3"
    using assms by (simp add: run_module_real)
  have g: "group ?res = param_group ps" and o: "owner ?res = param_owner ps"
    by (simp_all add: prepare_def Let_def)
  show ?thesis
    unfolding run
    using finish_keeps_gid [of ?res _ ?rd w3] finish_keeps_uid [of ?res _ ?rd w3]
      lookup_gid_sentinel [of ?res w3] lookup_uid_sentinel [of ?res w3]
    by (simp add: g o)
qed

lemma demo_run_fs:
  "fs (snd (run_module demo_params demo_world)) =
     Dir 0 0
       [(''tmp'', Dir 0 0 [(''pkg-2.3.rpm'', File 1000 1000), (''old-1.0.rpm'', File 1000 1000)]),
        (''home'', Dir 0 0
           [(''u'', Dir 1000 1000
               [(''note'', File 1000 1000),
                (''old-1.0'', Dir 1000 1000 [(''README'', File 1000 1000)]),
                (''pkg-2.3'', Dir 0 1000
                   [(''usr'', Dir 0 1000 [(''lib'', Dir 0 1000 [(''a.so'', File 0 1000)])]),
                    (''lib'', Symlink 1000 1000 ''usr/lib''),
                    (''README'', File 0 1000),
                    (''doc'', Symlink 0 1000 ''README'')])])])]"
  by code_simp

theorem one_half_of_ownership_is_kept_witness:
  "\<not> check_mode demo_params \<and> truthy (param_owner demo_params)
   \<and> \<not> truthy (param_group demo_params)
   \<and> map_option st_gid
        (node_at [''home'', ''u'', ''pkg-2.3'', ''README''] (fs (snd (run_module demo_params demo_world))))
       = Some 1000
   \<and> map_option st_uid
        (node_at [''home'', ''u'', ''pkg-2.3'', ''README''] (fs (snd (run_module demo_params demo_world))))
       = Some 0"
proof -
  let ?l = "[''home'', ''u'', ''pkg-2.3'', ''README'']"
  have p: "prepare demo_params demo_world =
      (\<lparr>changed = False, src = ''/tmp/pkg-2.3.rpm'', dest = Some ''pkg-2.3'',
        chdir = None, owner = Some ''root'', group = None, force = False\<rparr>, ''pkg-2.3'')"
    by (simp add: prepare_def demo_params_def path_defs)
  have a: "\<not> check_mode demo_params" and o: "truthy (param_owner demo_params)"
    and g: "\<not> truthy (param_group demo_params)"
    by (simp_all add: demo_params_def)
  have b: "change_directory (fst (prepare demo_params demo_world)) demo_world = Inr demo_world"
    unfolding p fst_conv snd_conv by (simp add: change_directory_def)
  have c: "decide (fst (prepare demo_params demo_world)) (snd (prepare demo_params demo_world))
      demo_world = Inr demo_world"
    unfolding p fst_conv snd_conv
    by (simp add: decide_def demo_world_def demo_fs_def path_defs resolve_def os_path_isdir_def)
  have "\<exists>w3. unpack (fst (prepare demo_params demo_world)) (snd (prepare demo_params demo_world))
      demo_world = Inr w3 \<and> map_option st_gid (node_at ?l (fs w3)) = Some 1000"
    unfolding p fst_conv snd_conv
    by (simp add: unpack_def demo_world_def demo_fs_def demo_archive_def path_defs resolve_def
        os_mkdir_def os_chdir_def os_popen_def)
  then obtain w3 where d: "unpack (fst (prepare demo_params demo_world))
        (snd (prepare demo_params demo_world)) demo_world = Inr w3"
    and before: "map_option st_gid (node_at ?l (fs w3)) = Some 1000"
    by blast
  from one_half_of_ownership_is_kept [OF a b c d] g
  have "map_option st_gid (node_at ?l (fs (snd (run_module demo_params demo_world))))
      = map_option st_gid (node_at ?l (fs w3))"
    by blast
  with before have gid: "map_option st_gid
      (node_at ?l (fs (snd (run_module demo_params demo_world)))) = Some 1000"
    by simp
  have uid: "map_option st_uid
      (node_at ?l (fs (snd (run_module demo_params demo_world)))) = Some 0"
    by (simp add: demo_run_fs)
  from a o g gid uid show ?thesis by simp
qed

subsection \<open>File systems that grow\<close>

lemma extends_refl: "extends t t"
  by (simp add: extends_def)

lemma extends_trans: "extends a b \<Longrightarrow> extends b c \<Longrightarrow> extends a c"
  unfolding extends_def by (metis)

lemma extendsD:
  "extends t t' \<Longrightarrow> node_at l t = Some x \<Longrightarrow> \<exists>x'. node_at l t' = Some x' \<and> kind_of x' = kind_of x"
  by (simp add: extends_def)

lemma node_at_snoc:
  "node_at (p @ [c]) n =
     (case node_at p n of
        Some (Dir u g es) \<Rightarrow> map_of es c
      | _ \<Rightarrow> None)"
proof (induction p arbitrary: n)
  case Nil
  show ?case by (cases n) (auto split: option.splits)
next
  case (Cons a p)
  show ?case
  proof (cases n)
    case (Dir u g es)
    with Cons.IH show ?thesis by (simp split: option.splits)
  qed simp_all
qed

lemma kind_KDir: "kind_of x = KDir \<Longrightarrow> \<exists>u g es. x = Dir u g es"
  by (cases x) simp_all

lemma kind_KFile: "kind_of x = KFile \<Longrightarrow> \<exists>u g. x = File u g"
  by (cases x) simp_all

lemma kind_KSymlink: "kind_of x = KSymlink t \<Longrightarrow> \<exists>u g. x = Symlink u g t"
  by (cases x) simp_all

lemma extends_dir:
  assumes "extends t t'" and "node_at cur t = Some (Dir u g es)"
  shows "\<exists>u' g' es'. node_at cur t' = Some (Dir u' g' es')
           \<and> (\<forall>c v. map_of es c = Some v \<longrightarrow> (\<exists>v'. map_of es' c = Some v' \<and> kind_of v' = kind_of v))"
proof -
  from extendsD [OF assms] obtain x' where x': "node_at cur t' = Some x'" "kind_of x' = KDir"
    by auto
  then obtain u' g' es' where d: "x' = Dir u' g' es'" by (auto dest: kind_KDir)
  have "\<exists>v'. map_of es' c = Some v' \<and> kind_of v' = kind_of v" if "map_of es c = Some v" for c v
  proof -
    from that assms(2) have "node_at (cur @ [c]) t = Some v" by (simp add: node_at_snoc)
    from extendsD [OF assms(1) this] x' d show ?thesis by (simp add: node_at_snoc)
  qed
  with x' d show ?thesis by blast
qed

lemma walk_path_extends:
  "extends t t' \<Longrightarrow> walk_path fuel t follow cur comps = Found q \<Longrightarrow>
   walk_path fuel t' follow cur comps = Found q"
proof (induction fuel t follow cur comps rule: walk_path.induct)
  case (1 fuel root follow cur)
  then show ?case by simp
next
  case (2 fuel root follow cur c rest)
  from "2.prems"(2) obtain u g es where dir: "node_at cur root = Some (Dir u g es)"
    by (auto split: option.splits node.splits)
  from extends_dir [OF "2.prems"(1) dir] obtain u' g' es' where
    dir': "node_at cur t' = Some (Dir u' g' es')" and
    ent: "\<And>c v. map_of es c = Some v \<Longrightarrow> \<exists>v'. map_of es' c = Some v' \<and> kind_of v' = kind_of v"
    by blast
  show ?case
  proof (cases "c = ''.''")
    case True
    with 2 dir dir' show ?thesis by simp
  next
    case False
    note nd = this
    show ?thesis
    proof (cases "c = ''..''")
      case True
      with 2 dir dir' nd show ?thesis by simp
    next
      case False
      note ndd = this
      from "2.prems"(2) dir nd ndd obtain v where v: "map_of es c = Some v"
        by (auto split: option.splits if_splits)
      from ent [OF v] obtain v' where v': "map_of es' c = Some v'" "kind_of v' = kind_of v"
        by blast
      show ?thesis
      proof (cases v)
        case (File a b)
        with v' obtain a' b' where "v' = File a' b'" by (auto dest: kind_KFile)
        with 2 dir dir' nd ndd v v' File show ?thesis by simp
      next
        case (Dir a b es0)
        with v' obtain a' b' es0' where "v' = Dir a' b' es0'" by (auto dest: kind_KDir)
        with 2 dir dir' nd ndd v v' Dir show ?thesis by simp
      next
        case (Symlink a b tgt)
        with v' obtain a' b' where s': "v' = Symlink a' b' tgt" by (auto dest: kind_KSymlink)
        show ?thesis
        proof (cases "rest = [] \<and> \<not> follow")
          case True
          with 2 dir dir' nd ndd v v' Symlink s' show ?thesis by simp
        next
          case False
          with "2.prems"(2) dir nd ndd v Symlink obtain k where k: "fuel = Suc k"
            by (cases fuel) auto
          with 2 dir dir' nd ndd v v' Symlink s' False show ?thesis by auto
        qed
      qed
    qed
  qed
qed


lemma extends_modify:
  "(\<And>n. extends n (f n)) \<Longrightarrow> extends t (modify q f t)"
proof (induction q arbitrary: t)
  case Nil
  then show ?case by simp
next
  case (Cons c q)
  show ?case
  proof (cases t)
    case (Dir u g es)
    have "\<exists>x'. node_at l (Dir u g (amend c (modify q f) es)) = Some x' \<and> kind_of x' = kind_of x"
      if "node_at l (Dir u g es) = Some x" for l x
    proof (cases l)
      case Nil
      with that show ?thesis by auto
    next
      case (Cons d ds)
      show ?thesis
      proof (cases "d = c")
        case False
        with that Cons show ?thesis by (simp add: map_of_amend)
      next
        case True
        from that Cons True obtain v where v: "map_of es c = Some v" "node_at ds v = Some x"
          by (auto split: option.splits)
        from Cons.IH [OF Cons.prems, of v] v(2)
        obtain x' where "node_at ds (modify q f v) = Some x'" "kind_of x' = kind_of x"
          by (auto simp: extends_def)
        with v Cons True show ?thesis by (simp add: map_of_amend)
      qed
    qed
    with Dir show ?thesis by (simp add: extends_def)
  qed (simp_all add: extends_refl)
qed

lemma extends_add_entries: "extends n (add_entries new n)"
proof (cases n)
  case (Dir u g es)
  have "\<exists>x'. node_at l (Dir u g (es @ new)) = Some x' \<and> kind_of x' = kind_of x"
    if "node_at l (Dir u g es) = Some x" for l x
  proof (cases l)
    case Nil
    with that show ?thesis by auto
  next
    case (Cons d ds)
    with that show ?thesis by (auto simp: map_add_def split: option.splits)
  qed
  with Dir show ?thesis by (simp add: extends_def)
qed (simp_all add: extends_refl)

lemma extends_set_owner: "extends n (set_owner u g n)"
proof -
  have "\<exists>x'. node_at l (set_owner u g n) = Some x' \<and> kind_of x' = kind_of x"
    if "node_at l n = Some x" for l x
  proof (cases l)
    case Nil
    with that show ?thesis by (cases n) auto
  next
    case (Cons d ds)
    with that show ?thesis by (simp only: node_at_below_set_owner) simp
  qed
  then show ?thesis by (simp add: extends_def)
qed

lemma os_mkdir_extends:
  "os_mkdir w p = Inr w' \<Longrightarrow> extends (fs w) (fs w') \<and> w' = w\<lparr>fs := fs w'\<rparr>"
  by (auto simp: os_mkdir_def extends_modify extends_add_entries
      split: resolved.splits if_splits)

lemma os_popen_extends:
  "os_popen w c = (w', out, st) \<Longrightarrow> extends (fs w) (fs w') \<and> w' = w\<lparr>fs := fs w'\<rparr>"
  by (auto simp: os_popen_def extends_modify extends_add_entries split: prod.splits)

lemma os_chown_extends:
  "os_chown w p u g = Inr w' \<Longrightarrow> extends (fs w) (fs w') \<and> w' = w\<lparr>fs := fs w'\<rparr>"
  by (auto simp: os_chown_def extends_modify extends_set_owner
      split: resolved.splits option.splits if_splits)

lemma chown_files_extends:
  "extends (fs w) (fs (world_after (chown_files w d names u g)))
   \<and> world_after (chown_files w d names u g)
       = w\<lparr>fs := fs (world_after (chown_files w d names u g))\<rparr>"
proof (induction names arbitrary: w)
  case Nil
  show ?case by (simp add: extends_refl)
next
  case (Cons a names)
  show ?case
  proof (cases "os_chown w (os_path_join d a) u g")
    case (Inl e)
    then show ?thesis by (simp add: extends_refl)
  next
    case (Inr w')
    from os_chown_extends [OF Inr] have 1: "extends (fs w) (fs w')" and 2: "w' = w\<lparr>fs := fs w'\<rparr>"
      by simp_all
    let ?z = "world_after (chown_files w' d names u g)"
    from Cons.IH [of w'] have 3: "extends (fs w') (fs ?z)" and 4: "?z = w'\<lparr>fs := fs ?z\<rparr>"
      by simp_all
    from 2 4 have "?z = w\<lparr>fs := fs ?z\<rparr>"
      by (metis world.update_convs(1) world.surjective)
    with extends_trans [OF 1 3] Inr show ?thesis by simp
  qed
qed


lemma only_fs_trans:
  "w' = w\<lparr>fs := fs w'\<rparr> \<Longrightarrow> z = w'\<lparr>fs := fs z\<rparr> \<Longrightarrow> z = w\<lparr>fs := fs z\<rparr>"
  by (metis world.update_convs(1) world.surjective)

lemma chown_walk_extends:
  "extends (fs w) (fs (world_after (chown_walk w triples u g)))
   \<and> world_after (chown_walk w triples u g)
       = w\<lparr>fs := fs (world_after (chown_walk w triples u g))\<rparr>"
proof (induction triples arbitrary: w)
  case Nil
  show ?case by (simp add: extends_refl)
next
  case (Cons t triples)
  obtain d dn fn where t: "t = (d, dn, fn)" by (cases t)
  show ?case
  proof (cases "os_chown w d u g")
    case (Inl e)
    then show ?thesis by (simp add: t extends_refl)
  next
    case (Inr w1)
    from os_chown_extends [OF Inr] have 1: "extends (fs w) (fs w1)" and 2: "w1 = w\<lparr>fs := fs w1\<rparr>"
      by simp_all
    let ?y = "world_after (chown_files w1 d fn u g)"
    from chown_files_extends [of w1 d fn u g]
    have 3: "extends (fs w1) (fs ?y)" and 4: "?y = w1\<lparr>fs := fs ?y\<rparr>"
      by simp_all
    note e13 = extends_trans [OF 1 3] and o13 = only_fs_trans [OF 2 4]
    show ?thesis
    proof (cases "chown_files w1 d fn u g")
      case (Inl stopped)
      obtain e y where "stopped = (e, y)" by (cases stopped)
      with Inl e13 o13 Inr show ?thesis by (simp add: t)
    next
      case (Inr w2)
      then have y: "?y = w2" by simp
      let ?z = "world_after (chown_walk w2 triples u g)"
      from Cons.IH [of w2] have 5: "extends (fs w2) (fs ?z)" and 6: "?z = w2\<lparr>fs := fs ?z\<rparr>"
        by simp_all
      from extends_trans [OF e13 [unfolded y] 5] only_fs_trans [OF o13 [unfolded y] 6]
        \<open>os_chown w d u g = Inr w1\<close> Inr
      show ?thesis by (simp add: t)
    qed
  qed
qed

lemma finish_extends:
  "extends (fs w) (fs (snd (finish res rd w)))
   \<and> snd (finish res rd w) = w\<lparr>fs := fs (snd (finish res rd w))\<rparr>"
  using finish_world [of res rd w] chown_walk_extends [of w "os_walk w rd"]
  by (auto simp: extends_refl)

lemma os_chdir_dir:
  "os_chdir w p = Inr w' \<Longrightarrow>
   resolve w True p = Found (cwd w') \<and> is_Dir (node_at (cwd w') (fs w)) \<and> \<not> denied w Chdir (cwd w')
   \<and> w' = w\<lparr>cwd := cwd w'\<rparr>"
  by (auto simp: os_chdir_def split: resolved.splits option.splits node.splits if_splits)

lemma is_Dir_extends:
  "extends t t' \<Longrightarrow> is_Dir (node_at l t) \<Longrightarrow> is_Dir (node_at l t')"
proof -
  assume e: "extends t t'" and d: "is_Dir (node_at l t)"
  from d obtain u g es where "node_at l t = Some (Dir u g es)"
    by (cases "node_at l t" rule: is_Dir.cases) auto
  from extendsD [OF e this] show ?thesis by (auto dest: kind_KDir)
qed

lemma resolve_extends:
  "extends (fs w) t \<Longrightarrow> resolve w follow p = Found q \<Longrightarrow> resolve (w\<lparr>fs := t\<rparr>) follow p = Found q"
  by (auto simp: resolve_def walk_path_extends split: if_splits)

lemma os_chdir_extends:
  assumes "extends (fs w) t" and "os_chdir w p = Inr w'"
  shows "os_chdir (w\<lparr>fs := t\<rparr>) p = Inr (w'\<lparr>fs := t\<rparr>)"
proof -
  from os_chdir_dir [OF assms(2)]
  have r: "resolve w True p = Found (cwd w')" and d: "is_Dir (node_at (cwd w') (fs w))"
    and n: "\<not> denied w Chdir (cwd w')" and w': "w' = w\<lparr>cwd := cwd w'\<rparr>"
    by simp_all
  from is_Dir_extends [OF assms(1) d] obtain u g es where
    "node_at (cwd w') t = Some (Dir u g es)"
    by (cases "node_at (cwd w') t" rule: is_Dir.cases) auto
  with resolve_extends [OF assms(1) r] n
  have "os_chdir (w\<lparr>fs := t\<rparr>) p = Inr (w\<lparr>fs := t, cwd := cwd w'\<rparr>)"
    by (simp add: os_chdir_def)
  moreover from w' have "w'\<lparr>fs := t\<rparr> = w\<lparr>fs := t, cwd := cwd w'\<rparr>"
    by (metis world.update_convs(1,2) world.surjective world.ext_inject)
  ultimately show ?thesis by simp
qed

lemma os_path_isdir_extends:
  "extends (fs w) t \<Longrightarrow> os_path_isdir w p \<Longrightarrow> os_path_isdir (w\<lparr>fs := t\<rparr>) p"
  by (auto simp: os_path_isdir_def resolve_extends is_Dir_extends split: resolved.splits)

lemma expanduser_fs: "os_path_expanduser (w\<lparr>fs := t\<rparr>) = os_path_expanduser w"
  by (rule ext) (auto simp: os_path_expanduser_def Let_def split: option.splits)

lemma expand_if_given_fs: "expand_if_given (w\<lparr>fs := t\<rparr>) x = expand_if_given w x"
  by (simp add: expand_if_given_def expanduser_fs)

lemma prepare_fs: "prepare ps (w\<lparr>fs := t\<rparr>) = prepare ps w"
  by (simp only: prepare_def expanduser_fs expand_if_given_fs)

lemma change_directory_world:
  "change_directory res w = Inr w1 \<Longrightarrow> fs w1 = fs w"
  by (auto simp: change_directory_def split: option.splits if_splits dest!: os_chdir_dir)
    (metis world.select_convs(1) world.surjective world.update_convs(2))

lemma change_directory_extends:
  assumes "extends (fs w) t" and "change_directory res w = Inr w1"
  shows "change_directory res (w\<lparr>fs := t\<rparr>) = Inr (w1\<lparr>fs := t\<rparr>)"
  using assms
  by (auto simp: change_directory_def os_chdir_extends split: option.splits if_splits)

lemma unpack_succeeds:
  assumes "unpack res dst w = Inr w3"
  shows "\<exists>wa wb. os_mkdir w dst = Inr wa \<and> os_chdir wa dst = Inr wb
           \<and> extends (fs wb) (fs w3) \<and> w3 = wb\<lparr>fs := fs w3\<rparr>"
proof -
  from assms obtain wa where a: "os_mkdir w dst = Inr wa"
    by (auto simp: unpack_def split: sum.splits)
  with assms obtain wb where b: "os_chdir wa dst = Inr wb"
    by (auto simp: unpack_def split: sum.splits)
  obtain z out st where c: "os_popen wb (cmd (src res)) = (z, out, st)"
    by (cases "os_popen wb (cmd (src res))")
  with assms a b have "z = w3" by (auto simp: unpack_def split: if_splits)
  with os_popen_extends [OF c] a b show ?thesis by auto
qed


subsection \<open>Running twice\<close>

lemma lookup_uid_failure: "lookup_uid res w = Inl out \<Longrightarrow> \<exists>msg. out = Fail_json msg None"
  by (auto simp: lookup_uid_def split: option.splits if_splits)

lemma lookup_gid_failure: "lookup_gid res w = Inl out \<Longrightarrow> \<exists>msg. out = Fail_json msg None"
  by (auto simp: lookup_gid_def split: option.splits if_splits)

lemma normalize_not_requested:
  "\<not> truthy (owner res) \<Longrightarrow> \<not> truthy (group res) \<Longrightarrow> normalize res rd uid gid w = Inr w"
  by (simp add: normalize_def)

text \<open>
  Claim C2, as the code has it.  The request has \<^verbatim>\<open>force\<close> false, the destination is
  no directory when the first run looks for it, and the unpack of the first run
  succeeds, leaving the world \<open>w3\<close>.  What the first run reports is then decided by
  the steps after the unpack, in their order:
  \<^item> when both lookups and the ownership pass succeed, it ends in \<^verbatim>\<open>exit_json\<close> with
    \<^verbatim>\<open>changed\<close> true, and so it does whenever neither owner nor group is requested;
  \<^item> when the owner is not found, or the owner is found and the group is not, it ends
    in that \<^verbatim>\<open>fail_json\<close>, a message without a dictionary, in the world \<open>w3\<close>;
  \<^item> when the ownership pass is stopped, it ends as the pass ended, with no dictionary.

  In each case a second run of the request, started as a new process in the first
  working directory on the file system the first run left, ends in \<^verbatim>\<open>exit_json\<close> with
  \<^verbatim>\<open>changed\<close> false and leaves that file system as it is.
\<close>

theorem second_run_is_a_noop:
  assumes "\<not> check_mode ps" and "\<not> param_force ps"
    and "change_directory (fst (prepare ps w)) w = Inr w1"
    and "\<not> os_path_isdir w1 (snd (prepare ps w))"
    and "unpack (fst (prepare ps w)) (snd (prepare ps w)) w1 = Inr w3"
  shows "(\<forall>uid gid w4.
            lookup_uid (fst (prepare ps w)) w3 = Inr uid
            \<and> lookup_gid (fst (prepare ps w)) w3 = Inr gid
            \<and> normalize (fst (prepare ps w)) (os_path_join (os_getcwd w1) (snd (prepare ps w)))
                  uid gid w3 = Inr w4
            \<longrightarrow> run_module ps w = (Exit_json ((fst (prepare ps w))\<lparr>changed := True\<rparr>), w4))
       \<and> (\<not> truthy (param_owner ps) \<and> \<not> truthy (param_group ps)
            \<longrightarrow> run_module ps w = (Exit_json ((fst (prepare ps w))\<lparr>changed := True\<rparr>), w3))
       \<and> (\<forall>out. lookup_uid (fst (prepare ps w)) w3 = Inl out
            \<longrightarrow> run_module ps w = (out, w3) \<and> (\<exists>msg. out = Fail_json msg None))
       \<and> (\<forall>uid out.
            lookup_uid (fst (prepare ps w)) w3 = Inr uid
            \<and> lookup_gid (fst (prepare ps w)) w3 = Inl out
            \<longrightarrow> run_module ps w = (out, w3) \<and> (\<exists>msg. out = Fail_json msg None))
       \<and> (\<forall>uid gid stopped.
            lookup_uid (fst (prepare ps w)) w3 = Inr uid
            \<and> lookup_gid (fst (prepare ps w)) w3 = Inr gid
            \<and> normalize (fst (prepare ps w)) (os_path_join (os_getcwd w1) (snd (prepare ps w)))
                  uid gid w3 = Inl stopped
            \<longrightarrow> run_module ps w = stopped \<and> reported (fst stopped) = None)
       \<and> run_module ps (w\<lparr>fs := fs (snd (run_module ps w))\<rparr>)
           = (Exit_json ((fst (prepare ps w))\<lparr>changed := False\<rparr>),
              w1\<lparr>fs := fs (snd (run_module ps w))\<rparr>)
       \<and> fs (snd (run_module ps (w\<lparr>fs := fs (snd (run_module ps w))\<rparr>)))
           = fs (snd (run_module ps w))"
proof -
  let ?res = "fst (prepare ps w)" and ?dst = "snd (prepare ps w)"
  let ?rd = "os_path_join (os_getcwd w1) ?dst"
  have dec: "decide ?res ?dst w1 = Inr w1"
    using assms(4) by (simp add: decide_def)
  have run: "run_module ps w = finish ?res ?rd w3"
    using assms(1,3,5) dec by (simp add: run_module_real)
  have g: "group ?res = param_group ps" and o: "owner ?res = param_owner ps"
    by (simp_all add: prepare_def Let_def)
  have allok: "run_module ps w = (Exit_json (?res\<lparr>changed := True\<rparr>), w4)"
    if "lookup_uid ?res w3 = Inr uid" "lookup_gid ?res w3 = Inr gid"
      "normalize ?res ?rd uid gid w3 = Inr w4" for uid gid w4
    unfolding run using that by (simp add: finish_def)
  have plain: "run_module ps w = (Exit_json (?res\<lparr>changed := True\<rparr>), w3)"
    if "\<not> truthy (param_owner ps)" "\<not> truthy (param_group ps)"
  proof -
    from that have no: "\<not> truthy (owner ?res)" "\<not> truthy (group ?res)"
      by (simp_all add: g o)
    from allok [OF lookup_uid_sentinel [OF no(1)] lookup_gid_sentinel [OF no(2)]
        normalize_not_requested [OF no]]
    show ?thesis .
  qed
  have nouid: "run_module ps w = (out, w3) \<and> (\<exists>msg. out = Fail_json msg None)"
    if "lookup_uid ?res w3 = Inl out" for out
    unfolding run using that lookup_uid_failure [OF that] by (simp add: finish_def)
  have nogid: "run_module ps w = (out, w3) \<and> (\<exists>msg. out = Fail_json msg None)"
    if "lookup_uid ?res w3 = Inr uid" "lookup_gid ?res w3 = Inl out" for uid out
    unfolding run using that lookup_gid_failure [OF that(2)] by (simp add: finish_def)
  have stop: "run_module ps w = stopped \<and> reported (fst stopped) = None"
    if "lookup_uid ?res w3 = Inr uid" "lookup_gid ?res w3 = Inr gid"
      "normalize ?res ?rd uid gid w3 = Inl stopped" for uid gid stopped
  proof -
    obtain out w' where s: "stopped = (out, w')" by (cases stopped)
    from normalize_stopped [OF that(3) [unfolded s]] that s show ?thesis
      unfolding run by (simp add: finish_def)
  qed
  let ?t = "fs (snd (run_module ps w))"
  from unpack_succeeds [OF assms(5)] obtain wa wb where
    mk: "os_mkdir w1 ?dst = Inr wa" and cd: "os_chdir wa ?dst = Inr wb"
    and e3: "extends (fs wb) (fs w3)"
    by blast
  from os_mkdir_extends [OF mk] have e1: "extends (fs w1) (fs wa)" and wa: "wa = w1\<lparr>fs := fs wa\<rparr>"
    by simp_all
  from os_chdir_dir [OF cd] have "wb = wa\<lparr>cwd := cwd wb\<rparr>" by simp
  then have fb: "fs wb = fs wa"
    by (metis world.select_convs(1) world.surjective world.update_convs(2))
  from finish_extends [of w3 ?res ?rd] run have e4: "extends (fs w3) ?t" by simp
  from e3 e4 fb have ea: "extends (fs wa) ?t" by (auto intro: extends_trans)
  from e1 ea have e1t: "extends (fs w1) ?t" by (rule extends_trans)
  from change_directory_world [OF assms(3)] e1t have e0: "extends (fs w) ?t" by simp
  from cd have "os_path_isdir wa ?dst"
    by (auto simp: os_path_isdir_def dest!: os_chdir_dir)
  from os_path_isdir_extends [OF ea this] wa
  have isdir: "os_path_isdir (w1\<lparr>fs := ?t\<rparr>) ?dst"
    by (metis world.update_convs(1) world.surjective)
  have cd2: "change_directory (fst (prepare ps (w\<lparr>fs := ?t\<rparr>))) (w\<lparr>fs := ?t\<rparr>)
      = Inr (w1\<lparr>fs := ?t\<rparr>)"
    unfolding prepare_fs by (rule change_directory_extends [OF e0 assms(3)])
  from run_module_real [OF assms(1) cd2] isdir assms(2)
  have second: "run_module ps (w\<lparr>fs := ?t\<rparr>) = (Exit_json (?res\<lparr>changed := False\<rparr>), w1\<lparr>fs := ?t\<rparr>)"
    by (simp add: prepare_fs decide_def force_prepare prepare_unchanged)
  then have third: "fs (snd (run_module ps (w\<lparr>fs := ?t\<rparr>))) = ?t"
    by simp
  from allok have 1: "\<forall>uid gid w4.
            lookup_uid ?res w3 = Inr uid \<and> lookup_gid ?res w3 = Inr gid
            \<and> normalize ?res ?rd uid gid w3 = Inr w4
            \<longrightarrow> run_module ps w = (Exit_json (?res\<lparr>changed := True\<rparr>), w4)"
    by blast
  from plain have 2: "\<not> truthy (param_owner ps) \<and> \<not> truthy (param_group ps)
            \<longrightarrow> run_module ps w = (Exit_json (?res\<lparr>changed := True\<rparr>), w3)"
    by blast
  from nouid have 3: "\<forall>out. lookup_uid ?res w3 = Inl out
            \<longrightarrow> run_module ps w = (out, w3) \<and> (\<exists>msg. out = Fail_json msg None)"
    by blast
  from nogid have 4: "\<forall>uid out.
            lookup_uid ?res w3 = Inr uid \<and> lookup_gid ?res w3 = Inl out
            \<longrightarrow> run_module ps w = (out, w3) \<and> (\<exists>msg. out = Fail_json msg None)"
    by blast
  from stop have 5: "\<forall>uid gid stopped.
            lookup_uid ?res w3 = Inr uid \<and> lookup_gid ?res w3 = Inr gid
            \<and> normalize ?res ?rd uid gid w3 = Inl stopped
            \<longrightarrow> run_module ps w = stopped \<and> reported (fst stopped) = None"
    by blast
  from 1 2 3 4 5 second third show ?thesis
    by (intro conjI)
qed


text \<open>
  The theorem at the concrete world, where owner \<^verbatim>\<open>root\<close> is requested: the unpack, both
  lookups and the ownership pass succeed, so the first run reports \<^verbatim>\<open>changed\<close> true,
  and the second reports \<^verbatim>\<open>changed\<close> false on an unchanged file system.
\<close>

theorem second_run_is_a_noop_witness:
  "\<not> check_mode demo_params \<and> \<not> param_force demo_params
   \<and> \<not> os_path_isdir demo_world ''pkg-2.3''
   \<and> \<not> isl (unpack \<lparr>changed = False, src = ''/tmp/pkg-2.3.rpm'', dest = Some ''pkg-2.3'',
                 chdir = None, owner = Some ''root'', group = None, force = False\<rparr>
               ''pkg-2.3'' demo_world)
   \<and> fst (run_module demo_params demo_world) = Exit_json
       \<lparr>changed = True, src = ''/tmp/pkg-2.3.rpm'', dest = Some ''pkg-2.3'', chdir = None,
        owner = Some ''root'', group = None, force = False\<rparr>
   \<and> fst (run_module demo_params (demo_world\<lparr>fs := fs (snd (run_module demo_params demo_world))\<rparr>))
       = Exit_json
       \<lparr>changed = False, src = ''/tmp/pkg-2.3.rpm'', dest = Some ''pkg-2.3'', chdir = None,
        owner = Some ''root'', group = None, force = False\<rparr>
   \<and> fs (snd (run_module demo_params
         (demo_world\<lparr>fs := fs (snd (run_module demo_params demo_world))\<rparr>)))
       = fs (snd (run_module demo_params demo_world))"
proof -
  let ?r = "\<lparr>changed = False, src = ''/tmp/pkg-2.3.rpm'', dest = Some ''pkg-2.3'',
        chdir = None, owner = Some ''root'', group = None, force = False\<rparr>"
  let ?w3 = "projr (unpack ?r ''pkg-2.3'' demo_world)"
  let ?rd = "os_path_join (os_getcwd demo_world) ''pkg-2.3''"
  have p: "prepare demo_params demo_world = (?r, ''pkg-2.3'')"
    by (simp add: prepare_def demo_params_def path_defs)
  have a: "\<not> check_mode demo_params" and b: "\<not> param_force demo_params"
    by (simp_all add: demo_params_def)
  have c: "change_directory (fst (prepare demo_params demo_world)) demo_world = Inr demo_world"
    unfolding p fst_conv snd_conv by (simp add: change_directory_def)
  have d0: "\<not> os_path_isdir demo_world ''pkg-2.3''"
    by (simp add: demo_world_def demo_fs_def path_defs resolve_def os_path_isdir_def)
  have d: "\<not> os_path_isdir demo_world (snd (prepare demo_params demo_world))"
    unfolding p snd_conv by (rule d0)
  have e0: "\<not> isl (unpack ?r ''pkg-2.3'' demo_world)"
    by code_simp
  then have e1: "unpack ?r ''pkg-2.3'' demo_world = Inr ?w3"
    by simp
  have e: "unpack (fst (prepare demo_params demo_world))
        (snd (prepare demo_params demo_world)) demo_world = Inr ?w3"
    unfolding p fst_conv snd_conv by (rule e1)
  have u: "lookup_uid ?r ?w3 = Inr 0"
    by code_simp
  have g: "lookup_gid ?r ?w3 = Inr (- 1)"
    by code_simp
  have "\<not> isl (normalize ?r ?rd 0 (- 1) ?w3)"
    by code_simp
  then have n: "normalize ?r ?rd 0 (- 1) ?w3 = Inr (projr (normalize ?r ?rd 0 (- 1) ?w3))"
    by simp
  note t = second_run_is_a_noop [OF a b c d e, unfolded p fst_conv snd_conv]
  from t have "\<forall>uid gid w4.
      lookup_uid ?r ?w3 = Inr uid \<and> lookup_gid ?r ?w3 = Inr gid
      \<and> normalize ?r ?rd uid gid ?w3 = Inr w4
      \<longrightarrow> run_module demo_params demo_world = (Exit_json (?r\<lparr>changed := True\<rparr>), w4)"
    by (rule conjunct1)
  with u g n have "run_module demo_params demo_world
      = (Exit_json (?r\<lparr>changed := True\<rparr>), projr (normalize ?r ?rd 0 (- 1) ?w3))"
    by blast
  then have one: "fst (run_module demo_params demo_world) = Exit_json
       \<lparr>changed = True, src = ''/tmp/pkg-2.3.rpm'', dest = Some ''pkg-2.3'', chdir = None,
        owner = Some ''root'', group = None, force = False\<rparr>"
    by simp
  from t have "run_module demo_params (demo_world\<lparr>fs := fs (snd (run_module demo_params demo_world))\<rparr>)
      = (Exit_json (?r\<lparr>changed := False\<rparr>),
         demo_world\<lparr>fs := fs (snd (run_module demo_params demo_world))\<rparr>)"
    by blast
  then have two: "fst (run_module demo_params
        (demo_world\<lparr>fs := fs (snd (run_module demo_params demo_world))\<rparr>))
      = Exit_json \<lparr>changed = False, src = ''/tmp/pkg-2.3.rpm'', dest = Some ''pkg-2.3'',
           chdir = None, owner = Some ''root'', group = None, force = False\<rparr>"
    by simp
  from t have three: "fs (snd (run_module demo_params
         (demo_world\<lparr>fs := fs (snd (run_module demo_params demo_world))\<rparr>)))
       = fs (snd (run_module demo_params demo_world))"
    by blast
  from a b d0 e0 one two three show ?thesis
    by (intro conjI)
qed

text \<open>
  Claim C2 as stated fails for a request whose owner is unknown: the destination is
  absent, \<^verbatim>\<open>force\<close> is false and the unpack succeeds, its files are on disk, but the
  first run ends in \<^verbatim>\<open>fail_json\<close> and reports no \<^verbatim>\<open>changed\<close> at all.
\<close>

theorem second_run_counterexample:
  "param_force (demo_params\<lparr>param_owner := Some ''nobody''\<rparr>) = False
   \<and> \<not> os_path_isdir demo_world ''pkg-2.3''
   \<and> \<not> isl (unpack (fst (prepare (demo_params\<lparr>param_owner := Some ''nobody''\<rparr>) demo_world))
               ''pkg-2.3'' demo_world)
   \<and> node_at [''home'', ''u'', ''pkg-2.3'', ''README'']
        (fs (snd (run_module (demo_params\<lparr>param_owner := Some ''nobody''\<rparr>) demo_world)))
       = Some (File 1000 1000)
   \<and> fst (run_module (demo_params\<lparr>param_owner := Some ''nobody''\<rparr>) demo_world)
       = Fail_json (''owner '' @ quoted ''nobody'' @ '' not found in password database'') None
   \<and> map_option changed
        (reported (fst (run_module (demo_params\<lparr>param_owner := Some ''nobody''\<rparr>) demo_world)))
       = None"
  by code_simp

subsection \<open>The ownership walk and links to directories\<close>

text \<open>
  Claim C7 at the concrete world, where owner \<^verbatim>\<open>root\<close> is requested and the package
  holds the link \<^verbatim>\<open>lib\<close> to the directory \<^verbatim>\<open>usr/lib\<close>.  \<^verbatim>\<open>os.walk\<close> lists that link under
  \<^verbatim>\<open>dirnames\<close>, which the loop does not read, and does not descend into it, so no
  \<^verbatim>\<open>os.chown\<close> reaches it: the run ends in \<^verbatim>\<open>exit_json\<close> and the link still belongs to
  user 1000.  The directories, the regular files and the link \<^verbatim>\<open>doc\<close> to a regular file
  belong to user 0.
\<close>

theorem link_to_directory_keeps_its_owner:
  "fst (run_module demo_params demo_world) = Exit_json
     \<lparr>changed = True, src = ''/tmp/pkg-2.3.rpm'', dest = Some ''pkg-2.3'', chdir = None,
      owner = Some ''root'', group = None, force = False\<rparr>
   \<and> getpwnam demo_world ''root'' = Some (0, ''/root'')
   \<and> os_walk (snd (run_module demo_params demo_world)) ''/home/u/pkg-2.3''
       = [(''/home/u/pkg-2.3'', [''usr'', ''lib''], [''README'', ''doc'']),
          (''/home/u/pkg-2.3/usr'', [''lib''], []),
          (''/home/u/pkg-2.3/usr/lib'', [], [''a.so''])]
   \<and> node_at [''home'', ''u'', ''pkg-2.3'', ''lib''] (fs (snd (run_module demo_params demo_world)))
       = Some (Symlink 1000 1000 ''usr/lib'')
   \<and> node_at [''home'', ''u'', ''pkg-2.3'', ''doc''] (fs (snd (run_module demo_params demo_world)))
       = Some (Symlink 0 1000 ''README'')
   \<and> node_at [''home'', ''u'', ''pkg-2.3'', ''README''] (fs (snd (run_module demo_params demo_world)))
       = Some (File 0 1000)
   \<and> map_option st_uid
        (node_at [''home'', ''u'', ''pkg-2.3'', ''usr'', ''lib'']
           (fs (snd (run_module demo_params demo_world))))
       = Some 0"
  by code_simp

end
